theory Spec2Isabelle
  imports Complex_Main
begin

section \<open>getData: sampling a Basilisk snapshot on a regular grid\<close>

text \<open>
  A shallow embedding of \<^verbatim>\<open>postProcess/getData.c\<close>. Conventions:
  \<^item> the bounds and the spacings of the output grid are values of the type \<open>double\<close>
    below: IEEE binary64 with infinities and NaN, every operation rounded to nearest,
    ties to even, and no operation fused with another. The sign of a zero is not kept:
    a division by zero has the sign it has for \<open>+0\<close>;
  \<^item> the values of the fields on the mesh, and what \<^verbatim>\<open>interpolate\<close> returns, are real
    numbers: the kernels are taken without rounding;
  \<^item> a C \<^verbatim>\<open>int\<close> is an \<open>int\<close> together with the range \<open>-2^31 .. 2^31 - 1\<close>, written
    out where a value can leave it: in \<^verbatim>\<open>atoi\<close>, in the cast \<^verbatim>\<open>(int)\<close> of a double, in
    \<^verbatim>\<open>cfg->ny + 1\<close> and in the index \<^verbatim>\<open>registered_fields*j + k\<close>. The loop counters stay
    below \<^verbatim>\<open>nx\<close> and \<^verbatim>\<open>ny\<close> and are natural numbers;
  \<^item> the stream \<^verbatim>\<open>ferr\<close> of Basilisk is \<^verbatim>\<open>stderr\<close>; it is a list of items, a
    character (\<open>Ch\<close>) or the text that \<^verbatim>\<open>%g\<close> prints for a double (\<open>G\<close>);
  \<^item> \<^verbatim>\<open>restore\<close> and \<^verbatim>\<open>interpolate\<close> belong to Basilisk and are parameters; an
    allocation does not fail.
\<close>

subsection \<open>Doubles\<close>

datatype double = Fin real | PInf | NInf | NaN

definition pow2 :: "int \<Rightarrow> real" where
  "pow2 k = (if 0 \<le> k then 2 ^ nat k else 1 / 2 ^ nat (- k))"

fun bit_length :: "nat \<Rightarrow> nat" where
  "bit_length n = (if n = 0 then 0 else Suc (bit_length (n div 2)))"

declare bit_length.simps [simp del]

definition expo :: "real \<Rightarrow> int" where
  \<comment> \<open>the binary exponent of \<open>x \<noteq> 0\<close>: \<open>2 ^ expo x \<le> \<bar>x\<bar> < 2 ^ (expo x + 1)\<close>\<close>
  "expo x =
     (if 1 \<le> \<bar>x\<bar> then int (bit_length (nat \<lfloor>\<bar>x\<bar>\<rfloor>)) - 1
      else - int (bit_length (nat (\<lceil>1 / \<bar>x\<bar>\<rceil> - 1))))"

definition rne :: "real \<Rightarrow> int" where
  \<comment> \<open>the nearest integer, the even one of two that are equally near\<close>
  "rne y =
     (let f = \<lfloor>y\<rfloor>; d = y - of_int f
      in if d < 1 / 2 then f
         else if 1 / 2 < d then f + 1
         else if even f then f else f + 1)"

definition round64 :: "real \<Rightarrow> double" where
  \<comment> \<open>53 bits of precision, exponents from -1022 (below it the subnormal numbers, with
      the spacing \<open>2 ^ - 1074\<close>) to 1023; a result that reaches \<open>2 ^ 1024\<close> is an infinity\<close>
  "round64 x =
     (if x = 0 then Fin 0
      else
        (let e = max (expo x) (- 1022);
             u = pow2 (e - 52);
             r = of_int (rne (x / u)) * u
         in if 2 ^ 1024 \<le> \<bar>r\<bar> then (if 0 < x then PInf else NInf) else Fin r))"

definition is_neg :: "double \<Rightarrow> bool" where
  "is_neg a = (case a of Fin x \<Rightarrow> x < 0 | NInf \<Rightarrow> True | _ \<Rightarrow> False)"

definition dneg :: "double \<Rightarrow> double" where
  "dneg a = (case a of Fin x \<Rightarrow> Fin (- x) | PInf \<Rightarrow> NInf | NInf \<Rightarrow> PInf | NaN \<Rightarrow> NaN)"

definition dadd :: "double \<Rightarrow> double \<Rightarrow> double" where
  "dadd a b =
     (if a = NaN \<or> b = NaN then NaN
      else case (a, b) of
             (Fin x, Fin y) \<Rightarrow> round64 (x + y)
           | (Fin x, _) \<Rightarrow> b
           | (_, Fin y) \<Rightarrow> a
           | _ \<Rightarrow> if a = b then a else NaN)"

definition dsub :: "double \<Rightarrow> double \<Rightarrow> double" where
  "dsub a b = dadd a (dneg b)"

definition dmul :: "double \<Rightarrow> double \<Rightarrow> double" where
  "dmul a b =
     (if a = NaN \<or> b = NaN then NaN
      else case (a, b) of
             (Fin x, Fin y) \<Rightarrow> round64 (x * y)
           | _ \<Rightarrow> if a = Fin 0 \<or> b = Fin 0 then NaN
                  else if is_neg a = is_neg b then PInf else NInf)"

definition ddiv :: "double \<Rightarrow> double \<Rightarrow> double" where
  "ddiv a b =
     (if a = NaN \<or> b = NaN then NaN
      else case (a, b) of
             (Fin x, Fin y) \<Rightarrow>
               if y = 0 then (if x = 0 then NaN else if x < 0 then NInf else PInf)
               else round64 (x / y)
           | (Fin x, _) \<Rightarrow> Fin 0
           | (_, Fin y) \<Rightarrow> if is_neg a = is_neg b then PInf else NInf
           | _ \<Rightarrow> NaN)"

definition dle :: "double \<Rightarrow> double \<Rightarrow> bool" where
  \<comment> \<open>\<^verbatim>\<open>a <= b\<close>: false when one of the two is NaN\<close>
  "dle a b =
     (if a = NaN \<or> b = NaN then False
      else case (a, b) of
             (Fin x, Fin y) \<Rightarrow> x \<le> y
           | _ \<Rightarrow> a = NInf \<or> b = PInf)"

definition dlt :: "double \<Rightarrow> double \<Rightarrow> bool" where
  \<comment> \<open>\<^verbatim>\<open>a < b\<close>\<close>
  "dlt a b = (dle a b \<and> \<not> dle b a)"

definition d_of_int :: "int \<Rightarrow> double" where
  \<comment> \<open>\<^verbatim>\<open>(double) n\<close>\<close>
  "d_of_int n = round64 (real_of_int n)"

definition half :: double where
  \<comment> \<open>the constant \<^verbatim>\<open>1./2\<close>\<close>
  "half = Fin (1 / 2)"

definition double_to_int :: "double \<Rightarrow> int option" where
  \<comment> \<open>\<^verbatim>\<open>(int) d\<close>: the fraction is dropped; undefined when the result is no \<^verbatim>\<open>int\<close>\<close>
  "double_to_int a =
     (case a of
        Fin d \<Rightarrow>
          (let t = (if 0 \<le> d then \<lfloor>d\<rfloor> else \<lceil>d\<rceil>)
           in if - (2 ^ 31) \<le> t \<and> t < 2 ^ 31 then Some t else None)
      | _ \<Rightarrow> None)"

subsection \<open>Errors, the output stream, the configuration\<close>

datatype error =
    ArgCount          \<comment> \<open>\<^verbatim>\<open>argc != 7\<close>\<close>
  | NyNotPositive     \<comment> \<open>\<^verbatim>\<open>cfg->ny <= 0\<close>\<close>
  | BoundsOrder       \<comment> \<open>\<^verbatim>\<open>xmax <= xmin || ymax <= ymin\<close>\<close>
  | NxNotPositive     \<comment> \<open>\<^verbatim>\<open>cfg->nx <= 0\<close>\<close>
  | CastOutOfRange    \<comment> \<open>\<^verbatim>\<open>(int) d\<close> where \<open>d\<close> has no integral part that is an \<^verbatim>\<open>int\<close>: undefined in C\<close>
  | IntOverflow       \<comment> \<open>an \<^verbatim>\<open>int\<close> sum or product beyond \<open>2^31 - 1\<close>: undefined in C\<close>
  | OutOfBounds       \<comment> \<open>an access outside the rows of \<^verbatim>\<open>matrix_new\<close>\<close>
  | Uninitialised     \<comment> \<open>a read of a buffer slot that was never written\<close>

datatype item = Ch char | G double

definition fputs :: "string \<Rightarrow> item list" where
  "fputs s = map Ch s"

record extraction_config =
  filename :: string
  xmin :: double
  ymin :: double
  xmax :: double
  ymax :: double
  Deltax :: double
  Deltay :: double
  nx :: int
  ny :: int

definition uninit_cfg :: extraction_config where
  \<comment> \<open>\<^verbatim>\<open>extraction_config cfg;\<close> in \<^verbatim>\<open>main\<close>: every field is assigned before it is read.\<close>
  "uninit_cfg = \<lparr>filename = [], xmin = Fin 0, ymin = Fin 0, xmax = Fin 0, ymax = Fin 0,
                  Deltax = Fin 0, Deltay = Fin 0, nx = 0, ny = 0\<rparr>"

subsection \<open>The C library: \<^verbatim>\<open>atoi\<close> and \<^verbatim>\<open>atof\<close>\<close>

text \<open>
  Both skip leading white space, read an optional sign and the longest prefix of the
  expected form, ignore what follows, and return zero when no conversion can be made;
  neither reports an error. \<^verbatim>\<open>atoi(s)\<close> is \<^verbatim>\<open>(int) strtol(s, NULL, 10)\<close>:
  \<^verbatim>\<open>strtol\<close> clamps to the range of a 64-bit \<^verbatim>\<open>long\<close> and the conversion to
  \<^verbatim>\<open>int\<close> keeps the low 32 bits. \<^verbatim>\<open>atof(s)\<close> is \<^verbatim>\<open>strtod(s, NULL)\<close>: it converts an
  infinity (\<^verbatim>\<open>inf\<close>), a NaN (\<^verbatim>\<open>nan\<close>), a hexadecimal number (\<^verbatim>\<open>0x\<close>, hexadecimal digits
  with an optional point, an optional binary exponent after \<^verbatim>\<open>p\<close>) and a decimal number
  (digits with an optional point, an optional exponent after \<^verbatim>\<open>e\<close>), and rounds the
  number it reads to the nearest double.
\<close>

definition isspace :: "char \<Rightarrow> bool" where
  "isspace c = (let n = (of_char c :: nat) in n = 32 \<or> (9 \<le> n \<and> n \<le> 13))"

definition isdigit :: "char \<Rightarrow> bool" where
  "isdigit c = (let n = (of_char c :: nat) in 48 \<le> n \<and> n \<le> 57)"

definition digit_val :: "char \<Rightarrow> nat" where
  "digit_val c = of_char c - 48"

definition decimal :: "string \<Rightarrow> nat" where
  "decimal ds = foldl (\<lambda>a c. 10 * a + digit_val c) 0 ds"

definition isxdigit :: "char \<Rightarrow> bool" where
  "isxdigit c =
     (let n = (of_char c :: nat)
      in (48 \<le> n \<and> n \<le> 57) \<or> (65 \<le> n \<and> n \<le> 70) \<or> (97 \<le> n \<and> n \<le> 102))"

definition xdigit_val :: "char \<Rightarrow> nat" where
  "xdigit_val c =
     (let n = (of_char c :: nat)
      in if n \<le> 57 then n - 48 else if n \<le> 70 then n - 55 else n - 87)"

definition hexadecimal :: "string \<Rightarrow> nat" where
  "hexadecimal ds = foldl (\<lambda>a c. 16 * a + xdigit_val c) 0 ds"

definition sign_split :: "string \<Rightarrow> bool \<times> string" where
  "sign_split s =
     (case s of
        [] \<Rightarrow> (False, [])
      | c # r \<Rightarrow> if c = CHR ''-'' then (True, r)
                else if c = CHR ''+'' then (False, r)
                else (False, s))"

definition strtol10 :: "string \<Rightarrow> int" where
  "strtol10 s =
     (let (neg, r) = sign_split (dropWhile isspace s);
          v = int (decimal (takeWhile isdigit r));
          sv = (if neg then - v else v)
      in max (- (2 ^ 63)) (min (2 ^ 63 - 1) sv))"

definition to_int32 :: "int \<Rightarrow> int" where
  "to_int32 v = (v + 2 ^ 31) mod 2 ^ 32 - 2 ^ 31"

definition atoi :: "string \<Rightarrow> int" where
  "atoi s = to_int32 (strtol10 s)"

primrec ci_prefix :: "string \<Rightarrow> string \<Rightarrow> bool" where
  \<comment> \<open>the lower-case letters \<open>p\<close> start \<open>s\<close>, in either case\<close>
  "ci_prefix [] s = True"
| "ci_prefix (p # ps) s =
     (case s of
        [] \<Rightarrow> False
      | c # cs \<Rightarrow> (c = p \<or> (of_char c :: nat) + 32 = of_char p) \<and> ci_prefix ps cs)"

definition exponent :: "char \<Rightarrow> string \<Rightarrow> int" where
  \<comment> \<open>the exponent after the letter \<open>l\<close> (\<^verbatim>\<open>e\<close> or \<^verbatim>\<open>p\<close>), 0 when there is none\<close>
  "exponent l r =
     (if ci_prefix [l] r then
        (let (neg, d) = sign_split (tl r); ds = takeWhile isdigit d
         in if ds = [] then 0
            else if neg then - int (decimal ds) else int (decimal ds))
      else 0)"

definition scale10 :: "real \<Rightarrow> int \<Rightarrow> real" where
  "scale10 m e = (if 0 \<le> e then m * 10 ^ nat e else m / 10 ^ nat (- e))"

definition mantissa :: "(char \<Rightarrow> bool) \<Rightarrow> string \<Rightarrow> string \<times> string \<times> string" where
  \<comment> \<open>the digits before the point, those after it, and what follows the mantissa\<close>
  "mantissa is_digit r =
     (let ip = takeWhile is_digit r;
          r1 = dropWhile is_digit r;
          fp = (case r1 of [] \<Rightarrow> []
                | c # t \<Rightarrow> if c = CHR ''.'' then takeWhile is_digit t else []);
          r2 = (case r1 of [] \<Rightarrow> []
                | c # t \<Rightarrow> if c = CHR ''.'' then dropWhile is_digit t else r1)
      in (ip, fp, r2))"

definition dec_value :: "string \<Rightarrow> real option" where
  "dec_value r =
     (case mantissa isdigit r of
        (ip, fp, r2) \<Rightarrow>
          if ip = [] \<and> fp = [] then None
          else Some (scale10 (real (decimal ip) + real (decimal fp) / 10 ^ length fp)
                       (exponent CHR ''e'' r2)))"

definition hex_value :: "string \<Rightarrow> real option" where
  "hex_value r =
     (if ci_prefix ''0x'' r then
        (case mantissa isxdigit (drop 2 r) of
           (ip, fp, r2) \<Rightarrow>
             if ip = [] \<and> fp = [] then None
             else Some (real (hexadecimal (ip @ fp)) *
                        pow2 (exponent CHR ''p'' r2 - 4 * int (length fp))))
      else None)"

definition strtod_conv :: "string \<Rightarrow> double option" where
  \<comment> \<open>what \<^verbatim>\<open>strtod\<close> converts, \<open>None\<close> when it converts nothing\<close>
  "strtod_conv s =
     (let (neg, r) = sign_split (dropWhile isspace s)
      in if ci_prefix ''inf'' r then Some (if neg then NInf else PInf)
         else if ci_prefix ''nan'' r then Some NaN
         else
           (case hex_value r of
              Some v \<Rightarrow> Some (round64 (if neg then - v else v))
            | None \<Rightarrow>
                (case dec_value r of
                   Some v \<Rightarrow> Some (round64 (if neg then - v else v))
                 | None \<Rightarrow> None)))"

definition numeric :: "string \<Rightarrow> bool" where
  \<comment> \<open>\<^verbatim>\<open>strtod\<close> performs a conversion\<close>
  "numeric s = (strtod_conv s \<noteq> None)"

definition atof :: "string \<Rightarrow> double" where
  "atof s = (case strtod_conv s of None \<Rightarrow> Fin 0 | Some d \<Rightarrow> d)"

subsection \<open>Argument parsing\<close>

text \<open>
  \<^verbatim>\<open>parse_arguments\<close>, lines 128 to 158 of the source. The result is the configuration
  when the C function returns 1 and an error when it returns 0; the stream is passed
  through.
\<close>

definition arg0 :: "string list \<Rightarrow> string" where
  \<comment> \<open>\<^verbatim>\<open>argv[0]\<close> as \<^verbatim>\<open>%s\<close> prints it\<close>
  "arg0 argv = (case argv of [] \<Rightarrow> ''(null)'' | a # _ \<Rightarrow> a)"

definition parse_arguments ::
  "string list \<Rightarrow> extraction_config \<Rightarrow> item list \<Rightarrow> (error + extraction_config) \<times> item list"
where
  "parse_arguments argv cfg err =
     (if length argv \<noteq> 7 then
        (Inl ArgCount,
         err @ fputs ''Error: Expected 6 arguments\<newline>''
             @ fputs (''Usage: '' @ arg0 argv @
                      '' <filename> <xmin> <ymin> <xmax> <ymax> <ny>\<newline>''))
      else
        (let cfg = cfg\<lparr>filename := take 4095 (argv ! 1),
                       xmin := atof (argv ! 2),
                       ymin := atof (argv ! 3),
                       xmax := atof (argv ! 4),
                       ymax := atof (argv ! 5),
                       ny := atoi (argv ! 6)\<rparr>
         in if ny cfg \<le> 0 then
              (Inl NyNotPositive, err @ fputs ''Error: ny must be positive.\<newline>'')
            else if dle (xmax cfg) (xmin cfg) \<or> dle (ymax cfg) (ymin cfg) then
              (Inl BoundsOrder,
               err @ fputs ''Error: Bounds must satisfy xmax>xmin and ymax>ymin.\<newline>'')
            else (Inr cfg, err)))"

subsection \<open>Grid configuration\<close>

text \<open>
  \<^verbatim>\<open>configure_grid\<close>, lines 165 to 178 of the source: two double divisions, the cast
  of the second quotient, the test of \<^verbatim>\<open>nx\<close>, a third division.
\<close>

definition configure_grid ::
  "extraction_config \<Rightarrow> item list \<Rightarrow> (error + extraction_config) \<times> item list"
where
  "configure_grid cfg err =
     (let cfg = cfg\<lparr>Deltay := ddiv (dsub (ymax cfg) (ymin cfg)) (d_of_int (ny cfg))\<rparr>
      in case double_to_int (ddiv (dsub (xmax cfg) (xmin cfg)) (Deltay cfg)) of
           None \<Rightarrow> (Inl CastOutOfRange, err)
         | Some n \<Rightarrow>
             (let cfg = cfg\<lparr>nx := n\<rparr>
              in if nx cfg \<le> 0 then
                   (Inl NxNotPositive,
                    err @ fputs ''Error: Computed nx <= 0. Check the provided bounds.\<newline>'')
                 else
                   (Inr (cfg\<lparr>Deltax := ddiv (dsub (xmax cfg) (xmin cfg))
                                         (d_of_int (nx cfg))\<rparr>),
                    err)))"

subsection \<open>The source mesh and the two kernels\<close>

text \<open>
  \<^verbatim>\<open>compute_D2c_field\<close> and \<^verbatim>\<open>compute_velocity_field\<close>, lines 281 to 318 of the source;
  \<^verbatim>\<open>AXI\<close> is the macro of that name, a parameter here.
  Inside \<^verbatim>\<open>foreach()\<close> the body sees one cell: its centre coordinate \<^verbatim>\<open>y\<close>, its width
  \<^verbatim>\<open>Delta\<close>, the volume fraction \<^verbatim>\<open>f[]\<close> and the velocity components at the cell and
  its neighbours, \<^verbatim>\<open>u.x[i,j]\<close> and \<^verbatim>\<open>u.y[i,j]\<close>. A mesh is the list of its cells in the
  order of the traversal; a derived scalar field holds one value per cell, in the same
  order. The values are real numbers and the operations of the kernels are exact. The
  constant \<^verbatim>\<open>1e-10\<close> of the guard is the double that the compiler reads for it,
  \<open>7737125245533627 / 2 ^ 86\<close>, which is a little above \<open>1 / 10 ^ 10\<close>.
\<close>

record cell =
  y_val :: real
  Delta :: real
  f_val :: real
  u_x :: "int \<Rightarrow> int \<Rightarrow> real"
  u_y :: "int \<Rightarrow> int \<Rightarrow> real"

type_synonym mesh = "cell list"

datatype scalar = D2c | vel

type_synonym store = "scalar \<Rightarrow> real list"

definition sq :: "real \<Rightarrow> real" where
  "sq x = x * x"

definition D22 :: "cell \<Rightarrow> real" where
  \<comment> \<open>\<^verbatim>\<open>(y > 1e-10) ? u.y[]/y : 0.0\<close>, compiled only when \<^verbatim>\<open>AXI\<close> is set\<close>
  "D22 c = (if y_val c > 7737125245533627 / 2 ^ 86 then u_y c 0 0 / y_val c else 0)"

definition D2c_cell :: "bool \<Rightarrow> cell \<Rightarrow> real" where
  \<comment> \<open>the body of \<^verbatim>\<open>foreach()\<close> in \<^verbatim>\<open>compute_D2c_field\<close>: the value left in \<^verbatim>\<open>target[]\<close>\<close>
  "D2c_cell AXI c =
     (let D11 = (u_y c 0 1 - u_y c 0 (- 1)) / (2 * Delta c);
          D33 = (u_x c 1 0 - u_x c (- 1) 0) / (2 * Delta c);
          D13 = 0.5 * ((u_y c 1 0 - u_y c (- 1) 0 + u_x c 0 1 - u_x c 0 (- 1)) / (2 * Delta c));
          D2 = (if AXI then sq D11 + sq (D22 c) + sq D33 + 2 * sq D13
                else sq D11 + sq D33 + 2 * sq D13);
          mu_r = f_val c + (1 - f_val c) * (2 / 100);
          target = mu_r * D2
      in if target > 0 then ln target / ln 10 else - 10)"

definition compute_D2c_field :: "bool \<Rightarrow> mesh \<Rightarrow> scalar \<Rightarrow> store \<Rightarrow> store" where
  "compute_D2c_field AXI m target st = st(target := map (D2c_cell AXI) m)"

definition vel_cell :: "cell \<Rightarrow> real" where
  "vel_cell c = sqrt (sq (u_x c 0 0) + sq (u_y c 0 0))"

definition compute_velocity_field :: "mesh \<Rightarrow> scalar \<Rightarrow> store \<Rightarrow> store" where
  "compute_velocity_field m target st = st(target := map vel_cell m)"

definition compute_fields :: "bool \<Rightarrow> mesh \<Rightarrow> store \<Rightarrow> store" where
  "compute_fields AXI m st = compute_velocity_field m vel (compute_D2c_field AXI m D2c st)"




subsection \<open>Field registration\<close>

definition list_add :: "scalar list \<Rightarrow> scalar \<Rightarrow> scalar list" where
  "list_add l s = l @ [s]"

definition register_fields :: "scalar list \<Rightarrow> scalar list" where
  "register_fields field_list = list_add (list_add field_list D2c) vel"

subsection \<open>The sample buffer\<close>

text \<open>
  \<^verbatim>\<open>matrix_new (n, p, size)\<close> gives \<open>n\<close> rows of \<open>p\<close> elements of \<open>size\<close> bytes; with
  \<open>size = registered_fields * sizeof(double)\<close> a row is \<open>p\<close> slots of \<open>registered_fields\<close>
  doubles. The memory is not initialised: a double of the buffer is \<open>None\<close> until it is
  written. An access outside a row, and a read of a double never written, are errors.
  The number of slots, \<^verbatim>\<open>cfg->ny + 1\<close>, and the index of a double,
  \<^verbatim>\<open>registered_fields*j + k\<close>, are \<^verbatim>\<open>int\<close> expressions: beyond \<open>2^31 - 1\<close> they overflow.
\<close>

type_synonym buffer = "real option list list"

definition matrix_new :: "nat \<Rightarrow> nat \<Rightarrow> nat \<Rightarrow> buffer" where
  "matrix_new n p doubles = replicate n (replicate (p * doubles) None)"

definition allocate_field_buffer :: "extraction_config \<Rightarrow> nat \<Rightarrow> error + buffer" where
  "allocate_field_buffer cfg registered_fields =
     (if ny cfg + 1 < 2 ^ 31
      then Inr (matrix_new (nat (nx cfg)) (nat (ny cfg + 1)) registered_fields)
      else Inl IntOverflow)"

definition int_index :: "nat \<Rightarrow> nat \<Rightarrow> nat \<Rightarrow> nat option" where
  \<comment> \<open>\<^verbatim>\<open>registered_fields*j + k\<close>\<close>
  "int_index registered_fields j k =
     (if registered_fields * j + k < 2 ^ 31 then Some (registered_fields * j + k) else None)"

definition buf_set :: "buffer \<Rightarrow> nat \<Rightarrow> nat \<Rightarrow> real \<Rightarrow> error + buffer" where
  "buf_set buf i idx v =
     (if i < length buf \<and> idx < length (buf ! i)
      then Inr (buf[i := (buf ! i)[idx := Some v]])
      else Inl OutOfBounds)"

definition buf_get :: "buffer \<Rightarrow> nat \<Rightarrow> nat \<Rightarrow> error + real" where
  "buf_get buf i idx =
     (if i < length buf \<and> idx < length (buf ! i)
      then (case buf ! i ! idx of None \<Rightarrow> Inl Uninitialised | Some v \<Rightarrow> Inr v)
      else Inl OutOfBounds)"

subsection \<open>Sampling and writing\<close>

text \<open>
  \<^verbatim>\<open>sample_fields\<close> and \<^verbatim>\<open>write_fields\<close>, lines 217 to 252 of the source. A \<^verbatim>\<open>for\<close> loop
  over \<open>0 \<le> i < n\<close> is \<open>for_each [0..<n]\<close>, which stops at the first error of its body.
  \<^verbatim>\<open>interpolate (s, x, y)\<close> reads the mesh and the values of the field \<open>s\<close>. The
  coordinate \<^verbatim>\<open>cfg->Deltax*(i + 1./2) + cfg->xmin\<close> is a double sum of a double product.
\<close>

definition coordinate :: "double \<Rightarrow> nat \<Rightarrow> double \<Rightarrow> double" where
  \<comment> \<open>\<^verbatim>\<open>Delta*(i + 1./2) + min\<close>\<close>
  "coordinate d i lo = dadd (dmul d (dadd (d_of_int (int i)) half)) lo"

primrec for_each :: "'a list \<Rightarrow> ('a \<Rightarrow> 's \<Rightarrow> error + 's) \<Rightarrow> 's \<Rightarrow> error + 's" where
  "for_each [] body s = Inr s"
| "for_each (a # as) body s =
     (case body a s of Inl e \<Rightarrow> Inl e | Inr s' \<Rightarrow> for_each as body s')"

primrec store_samples ::
  "scalar list \<Rightarrow> nat \<Rightarrow> (scalar \<Rightarrow> real) \<Rightarrow> nat \<Rightarrow> nat \<Rightarrow> nat \<Rightarrow> buffer \<Rightarrow> error + buffer"
where
  \<comment> \<open>\<^verbatim>\<open>for (scalar s in field_list) field_buffer[i][registered_fields*j + k++] = ...\<close>\<close>
  "store_samples [] k sample i registered_fields j buf = Inr buf"
| "store_samples (s # ss) k sample i registered_fields j buf =
     (case int_index registered_fields j k of
        None \<Rightarrow> Inl IntOverflow
      | Some idx \<Rightarrow>
          (case buf_set buf i idx (sample s) of
             Inl e \<Rightarrow> Inl e
           | Inr buf' \<Rightarrow> store_samples ss (k + 1) sample i registered_fields j buf'))"

definition sample_fields ::
  "(scalar \<Rightarrow> double \<Rightarrow> double \<Rightarrow> real) \<Rightarrow> scalar list \<Rightarrow>
   extraction_config \<Rightarrow> buffer \<Rightarrow> nat \<Rightarrow> error + buffer"
where
  "sample_fields interpolate field_list cfg field_buffer registered_fields =
     for_each [0..<nat (nx cfg)]
       (\<lambda>i buf.
          let x = coordinate (Deltax cfg) i (xmin cfg)
          in for_each [0..<nat (ny cfg)]
               (\<lambda>j buf.
                  let y = coordinate (Deltay cfg) j (ymin cfg)
                  in store_samples field_list 0 (\<lambda>s. interpolate s x y)
                       i registered_fields j buf)
               buf)
       field_buffer"

primrec print_samples ::
  "scalar list \<Rightarrow> nat \<Rightarrow> buffer \<Rightarrow> nat \<Rightarrow> nat \<Rightarrow> nat \<Rightarrow> item list \<Rightarrow> error + item list"
where
  \<comment> \<open>\<^verbatim>\<open>for (scalar s in field_list) fprintf (fp, " %g", field_buffer[i][...k++])\<close>\<close>
  "print_samples [] k buf i registered_fields j fp = Inr fp"
| "print_samples (s # ss) k buf i registered_fields j fp =
     (case int_index registered_fields j k of
        None \<Rightarrow> Inl IntOverflow
      | Some idx \<Rightarrow>
          (case buf_get buf i idx of
             Inl e \<Rightarrow> Inl e
           | Inr v \<Rightarrow>
               print_samples ss (k + 1) buf i registered_fields j
                 (fp @ [Ch CHR '' '', G (Fin v)])))"

definition write_fields ::
  "scalar list \<Rightarrow> extraction_config \<Rightarrow> buffer \<Rightarrow> nat \<Rightarrow> item list \<Rightarrow> error + item list"
where
  "write_fields field_list cfg field_buffer registered_fields fp =
     for_each [0..<nat (nx cfg)]
       (\<lambda>i fp.
          let x = coordinate (Deltax cfg) i (xmin cfg)
          in for_each [0..<nat (ny cfg)]
               (\<lambda>j fp.
                  let y = coordinate (Deltay cfg) j (ymin cfg)
                  in case print_samples field_list 0 field_buffer i registered_fields j
                            (fp @ [G x, Ch CHR '' '', G y]) of
                       Inl e \<Rightarrow> Inl e
                     | Inr fp' \<Rightarrow> Inr (fp' @ [Ch CHR ''\<newline>'']))
               fp)
       fp"

subsection \<open>The main function\<close>

text \<open>
  \<^verbatim>\<open>main\<close>, lines 100 to 121 of the source.
  The globals of the program, \<^verbatim>\<open>field_list\<close> (\<^verbatim>\<open>NULL\<close> at the start), the mesh and the
  values of \<^verbatim>\<open>D2c\<close> and \<^verbatim>\<open>vel\<close>, are values of \<open>main\<close> here. \<^verbatim>\<open>restore\<close> reports whether
  it could read the snapshot; \<^verbatim>\<open>main\<close> does not look at the answer, and the mesh is what
  \<^verbatim>\<open>restore\<close> leaves. \<^verbatim>\<open>fp\<close> is \<^verbatim>\<open>ferr\<close>, the stream the messages went to. After
  \<^verbatim>\<open>cleanup_output\<close>, which flushes and closes the stream and frees the buffer, \<^verbatim>\<open>main\<close>
  reaches its end: the exit status is 0. A run keeps the calls that \<^verbatim>\<open>main\<close> made, in
  the order in which it made them.
\<close>

datatype call =
    ParseArguments | ConfigureGrid | RegisterFields | Restore | ComputeFields
  | AllocateFieldBuffer | SampleFields | WriteFields | CleanupOutput

record run =
  status :: "error + int"   \<comment> \<open>\<open>Inr\<close> the exit status; \<open>Inl\<close> when the behaviour is undefined\<close>
  ferr :: "item list"       \<comment> \<open>what the run wrote to \<^verbatim>\<open>stderr\<close>\<close>
  calls :: "call list"      \<comment> \<open>the calls \<^verbatim>\<open>main\<close> made, in order\<close>

definition returns_zero :: "error \<Rightarrow> bool" where
  \<comment> \<open>the failures on which the C function prints its message and returns 0\<close>
  "returns_zero e = (e = ArgCount \<or> e = NyNotPositive \<or> e = BoundsOrder \<or> e = NxNotPositive)"

definition give_up :: "error \<Rightarrow> item list \<Rightarrow> call list \<Rightarrow> run" where
  "give_up e err cs =
     \<lparr>status = (if returns_zero e then Inr 1 else Inl e), ferr = err, calls = cs\<rparr>"

definition main ::
  "bool \<Rightarrow> (string \<Rightarrow> mesh) \<Rightarrow> (mesh \<Rightarrow> real list \<Rightarrow> double \<Rightarrow> double \<Rightarrow> real) \<Rightarrow>
   string list \<Rightarrow> run"
where
  "main AXI restore interpolate arguments =
     (case parse_arguments arguments uninit_cfg [] of
        (Inl e, err) \<Rightarrow> give_up e err [ParseArguments]
      | (Inr cfg, err) \<Rightarrow>
     (case configure_grid cfg err of
        (Inl e, err) \<Rightarrow> give_up e err [ParseArguments, ConfigureGrid]
      | (Inr cfg, err) \<Rightarrow>
     (let field_list = register_fields [];
          m = restore (filename cfg);
          st = compute_fields AXI m (\<lambda>s. []);
          registered_fields = length field_list;
          cs = [ParseArguments, ConfigureGrid, RegisterFields, Restore, ComputeFields,
                AllocateFieldBuffer]
      in case allocate_field_buffer cfg registered_fields of
           Inl e \<Rightarrow> give_up e err cs
         | Inr field \<Rightarrow>
     (case sample_fields (\<lambda>s. interpolate m (st s)) field_list cfg field registered_fields of
        Inl e \<Rightarrow> give_up e err (cs @ [SampleFields])
      | Inr field \<Rightarrow>
     (case write_fields field_list cfg field registered_fields err of
        Inl e \<Rightarrow> give_up e err (cs @ [SampleFields, WriteFields])
      | Inr fp \<Rightarrow>
          \<lparr>status = Inr 0, ferr = fp,
           calls = cs @ [SampleFields, WriteFields, CleanupOutput]\<rparr>)))))"

subsection \<open>Reading the stream back\<close>

primrec lines_acc :: "item list \<Rightarrow> item list \<Rightarrow> item list list" where
  \<comment> \<open>the newline-terminated lines of a stream, the newline left out\<close>
  "lines_acc acc [] = []"
| "lines_acc acc (it # its) =
     (if it = Ch CHR ''\<newline>'' then rev acc # lines_acc [] its
      else lines_acc (it # acc) its)"

primrec g_values :: "item list \<Rightarrow> double list" where
  "g_values [] = []"
| "g_values (it # its) = (case it of G v \<Rightarrow> v # g_values its | Ch c \<Rightarrow> g_values its)"

definition output_rows :: "item list \<Rightarrow> double list list" where
  \<comment> \<open>the data rows: the lines that hold a number, each as the list of its numbers\<close>
  "output_rows fp = filter (\<lambda>vs. vs \<noteq> []) (map g_values (lines_acc [] fp))"

subsection \<open>Vocabulary of the statements\<close>

text \<open>
  The centre of the output cell \<open>(i, j)\<close>, the value the sampler leaves in a double of
  row \<open>i\<close>, the items of one output row, the calls of a complete run, and the sizes for
  which no \<^verbatim>\<open>int\<close> expression of the buffer overflows.
\<close>

definition grid_x :: "extraction_config \<Rightarrow> nat \<Rightarrow> double" where
  "grid_x cfg i = coordinate (Deltax cfg) i (xmin cfg)"

definition grid_y :: "extraction_config \<Rightarrow> nat \<Rightarrow> double" where
  "grid_y cfg j = coordinate (Deltay cfg) j (ymin cfg)"

definition sampled_row ::
  "(scalar \<Rightarrow> double \<Rightarrow> double \<Rightarrow> real) \<Rightarrow> scalar list \<Rightarrow> extraction_config \<Rightarrow>
   nat \<Rightarrow> nat \<Rightarrow> nat \<Rightarrow> real option"
where
  "sampled_row interpolate fl cfg i n idx =
     (if idx < length fl * n
      then Some (interpolate (fl ! (idx mod length fl)) (grid_x cfg i) (grid_y cfg (idx div length fl)))
      else None)"

definition row_items :: "double \<Rightarrow> double \<Rightarrow> real list \<Rightarrow> item list" where
  "row_items x y vals =
     [G x, Ch CHR '' '', G y] @ concat (map (\<lambda>v. [Ch CHR '' '', G (Fin v)]) vals) @
     [Ch CHR ''\<newline>'']"

definition sample_values ::
  "(scalar \<Rightarrow> double \<Rightarrow> double \<Rightarrow> real) \<Rightarrow> scalar list \<Rightarrow> extraction_config \<Rightarrow>
   nat \<Rightarrow> nat \<Rightarrow> real list"
where
  "sample_values interpolate fl cfg i j =
     map (\<lambda>s. interpolate s (grid_x cfg i) (grid_y cfg j)) fl"

definition grid_rows ::
  "(scalar \<Rightarrow> double \<Rightarrow> double \<Rightarrow> real) \<Rightarrow> scalar list \<Rightarrow> extraction_config \<Rightarrow>
   (nat \<times> nat) list \<Rightarrow> item list"
where
  "grid_rows interpolate fl cfg ps =
     concat (map (\<lambda>(i, j). row_items (grid_x cfg i) (grid_y cfg j)
                              (sample_values interpolate fl cfg i j)) ps)"

definition all_calls :: "call list" where
  "all_calls = [ParseArguments, ConfigureGrid, RegisterFields, Restore, ComputeFields,
                AllocateFieldBuffer, SampleFields, WriteFields, CleanupOutput]"

definition nonneg :: "double \<Rightarrow> bool" where
  \<comment> \<open>not below zero: a number that is not negative, \<open>+\<infinity>\<close>, or NaN\<close>
  "nonneg a = (case a of Fin x \<Rightarrow> 0 \<le> x | NInf \<Rightarrow> False | _ \<Rightarrow> True)"

definition fits_int :: "extraction_config \<Rightarrow> nat \<Rightarrow> bool" where
  \<comment> \<open>\<^verbatim>\<open>ny + 1\<close> and every index \<^verbatim>\<open>registered_fields*j + k\<close> with \<open>j < ny\<close>, \<open>k < registered_fields\<close>
      are at most \<open>2^31 - 1\<close>\<close>
  "fits_int cfg registered_fields =
     (ny cfg + 1 < 2 ^ 31 \<and> registered_fields * nat (ny cfg) \<le> 2 ^ 31)"

subsection \<open>A worked example\<close>

text \<open>
  The example of the specification: bounds \<open>(0, 0, 1, 2)\<close> and \<open>ny = 4\<close> give
  \<open>\<Delta>y = 0.5\<close>, \<open>nx = 2\<close>, \<open>\<Delta>x = 0.5\<close> and eight rows. The mesh has one cell, and the
  interpolation returns the value of the field in the first cell of the mesh.
\<close>

definition example_argv :: "string list" where
  "example_argv = [''getData'', ''dump'', ''0'', ''0'', ''1'', ''2'', ''4'']"

definition example_cfg :: extraction_config where
  "example_cfg = \<lparr>filename = ''dump'', xmin = Fin 0, ymin = Fin 0, xmax = Fin 1, ymax = Fin 2,
                   Deltax = Fin (1 / 2), Deltay = Fin (1 / 2), nx = 2, ny = 4\<rparr>"

definition example_cell :: cell where
  "example_cell = \<lparr>y_val = 1, Delta = 1 / 2, f_val = 1,
                    u_x = (\<lambda>i j. 0),
                    u_y = (\<lambda>i j. if i = 0 \<and> j = 1 then 1 else 0)\<rparr>"

definition example_cell2 :: cell where
  "example_cell2 = \<lparr>y_val = 2, Delta = 1, f_val = 0,
                     u_x = (\<lambda>i j. 3), u_y = (\<lambda>i j. 4)\<rparr>"



definition example_restore :: "string \<Rightarrow> mesh" where
  "example_restore file = [example_cell]"

definition example_interpolate :: "mesh \<Rightarrow> real list \<Rightarrow> double \<Rightarrow> double \<Rightarrow> real" where
  "example_interpolate m vs x y = (case vs of [] \<Rightarrow> 0 | v # _ \<Rightarrow> v)"

section \<open>Auxiliary facts\<close>

subsection \<open>Signs of rounded values\<close>

lemmas fl_defs = round64_def rne_def expo_def pow2_def bit_length.simps Let_def

lemmas parse_defs = atof_def strtod_conv_def numeric_def dec_value_def hex_value_def
  mantissa_def exponent_def scale10_def atoi_def strtol10_def to_int32_def sign_split_def
  isspace_def isdigit_def isxdigit_def decimal_def digit_val_def hexadecimal_def xdigit_val_def

lemmas op_defs = dadd_def dsub_def dmul_def ddiv_def dneg_def dle_def dlt_def d_of_int_def
  half_def is_neg_def double_to_int_def coordinate_def

lemma pow2_pos: "0 < pow2 k"
  by (simp add: pow2_def)

lemma rne_nonneg: "0 \<le> y \<Longrightarrow> 0 \<le> rne y"
  by (simp add: rne_def Let_def)

lemma round64_nonneg: "0 \<le> x \<Longrightarrow> nonneg (round64 x)"
proof -
  assume x: "0 \<le> x"
  define u where "u = pow2 (max (expo x) (- 1022) - 52)"
  have u: "0 < u" by (simp add: u_def pow2_pos)
  have "0 \<le> rne (x / u)" using x u by (intro rne_nonneg) simp
  then have "0 \<le> of_int (rne (x / u)) * u" using u by simp
  then show ?thesis
    using x by (simp add: round64_def Let_def nonneg_def u_def [symmetric])
qed

lemma nonneg_dsub: "dlt b a \<Longrightarrow> nonneg (dsub a b)"
proof (cases a; cases b)
  fix x y assume "a = Fin x" "b = Fin y" "dlt b a"
  then show ?thesis
    using round64_nonneg [of "x - y"] by (simp add: dlt_def dle_def dsub_def dadd_def dneg_def)
qed (simp_all add: dlt_def dle_def dsub_def dadd_def dneg_def nonneg_def)

lemma nonneg_ddiv: "nonneg a \<Longrightarrow> nonneg b \<Longrightarrow> nonneg (ddiv a b)"
proof (cases a; cases b)
  fix x y assume "a = Fin x" "b = Fin y" "nonneg a" "nonneg b"
  then show ?thesis
    using round64_nonneg [of "x / y"] by (simp add: ddiv_def nonneg_def)
qed (simp_all add: ddiv_def nonneg_def is_neg_def)

lemma nonneg_d_of_int: "0 \<le> n \<Longrightarrow> nonneg (d_of_int n)"
  by (simp add: d_of_int_def round64_nonneg)

lemma grid_quotient_nonneg:
  assumes "dlt (xmin cfg) (xmax cfg)" and "dlt (ymin cfg) (ymax cfg)" and "0 < ny cfg"
    and "ddiv (dsub (xmax cfg) (xmin cfg))
           (ddiv (dsub (ymax cfg) (ymin cfg)) (d_of_int (ny cfg))) = Fin q"
  shows "0 \<le> q"
proof -
  have "nonneg (ddiv (dsub (ymax cfg) (ymin cfg)) (d_of_int (ny cfg)))"
    using assms(2,3) by (intro nonneg_ddiv nonneg_dsub nonneg_d_of_int) simp_all
  moreover have "nonneg (dsub (xmax cfg) (xmin cfg))"
    using assms(1) by (rule nonneg_dsub)
  ultimately have "nonneg (ddiv (dsub (xmax cfg) (xmin cfg))
           (ddiv (dsub (ymax cfg) (ymin cfg)) (d_of_int (ny cfg))))"
    by (simp add: nonneg_ddiv)
  then show ?thesis using assms(4) by (simp add: nonneg_def)
qed

lemma double_to_int_floor:
  "0 \<le> d \<Longrightarrow> \<lfloor>d\<rfloor> < 2 ^ 31 \<Longrightarrow> double_to_int (Fin d) = Some \<lfloor>d\<rfloor>"
  by (simp add: double_to_int_def)

subsection \<open>Rounding a small number\<close>













subsection \<open>Failing runs\<close>

lemma main_parse_failure:
  "parse_arguments argv uninit_cfg [] = (Inl e, err) \<Longrightarrow>
   main A R I argv = give_up e err [ParseArguments]"
  by (simp add: main_def)

lemma main_grid_failure:
  "parse_arguments argv uninit_cfg [] = (Inr cfg, err) \<Longrightarrow>
   configure_grid cfg err = (Inl e, err') \<Longrightarrow>
   main A R I argv = give_up e err' [ParseArguments, ConfigureGrid]"
  by (simp add: main_def)

lemma g_values_fputs: "g_values (fputs s) = []"
  by (induction s) (simp_all add: fputs_def)

lemma lines_acc_chars:
  "\<forall>it \<in> set acc \<union> set fp. \<exists>c. it = Ch c \<Longrightarrow> \<forall>l \<in> set (lines_acc acc fp). g_values l = []"
proof (induction fp arbitrary: acc)
  case Nil
  then show ?case by simp
next
  case (Cons it fp)
  have gv: "\<And>l. \<forall>it \<in> set l. \<exists>c. it = Ch c \<Longrightarrow> g_values l = []"
  proof -
    fix l :: "item list"
    show "\<forall>it \<in> set l. \<exists>c. it = Ch c \<Longrightarrow> g_values l = []"
      by (induction l) auto
  qed
  show ?case
  proof (cases "it = Ch CHR ''\<newline>''")
    case True
    have "\<forall>l \<in> set (lines_acc [] fp). g_values l = []"
      using Cons.prems by (intro Cons.IH) auto
    moreover have "g_values (rev acc) = []"
      using Cons.prems by (intro gv) auto
    ultimately show ?thesis using True by simp
  next
    case False
    have "\<forall>l \<in> set (lines_acc (it # acc) fp). g_values l = []"
      using Cons.prems by (intro Cons.IH) auto
    then show ?thesis using False by simp
  qed
qed

lemma output_rows_fputs: "output_rows (fputs s) = []"
proof -
  have "\<forall>l \<in> set (lines_acc [] (fputs s)). g_values l = []"
    by (rule lines_acc_chars) (auto simp: fputs_def)
  then show ?thesis
    by (simp add: output_rows_def filter_empty_conv)
qed

lemma output_rows_Nil: "output_rows [] = []"
  by (simp add: output_rows_def)

lemma parse_arguments_ok_iff:
  "(\<exists>cfg'. parse_arguments argv cfg err = (Inr cfg', err)) \<longleftrightarrow>
   length argv = 7 \<and> 0 < atoi (argv ! 6) \<and>
   \<not> dle (atof (argv ! 4)) (atof (argv ! 2)) \<and> \<not> dle (atof (argv ! 5)) (atof (argv ! 3))"
  by (auto simp: parse_arguments_def Let_def)



lemma parse_arguments_stream:
  "parse_arguments argv c err = (Inr cfg, err') \<Longrightarrow> err' = err"
  by (auto simp: parse_arguments_def Let_def split: if_splits)

lemma parse_arguments_ny:
  "parse_arguments argv c err = (Inr cfg, err') \<Longrightarrow> 0 < ny cfg"
  by (auto simp: parse_arguments_def Let_def split: if_splits)

lemma configure_grid_stream:
  "configure_grid c err = (Inr cfg, err') \<Longrightarrow> err' = err"
  by (auto simp: configure_grid_def Let_def split: if_splits option.splits)

lemma configure_grid_sizes:
  "configure_grid c err = (Inr cfg, err') \<Longrightarrow> 0 < nx cfg \<and> ny cfg = ny c"
  by (auto simp: configure_grid_def Let_def split: if_splits option.splits)

subsection \<open>The loops of the sampler\<close>

lemma for_each_snoc:
  "for_each (xs @ [a]) body s =
     (case for_each xs body s of Inl e \<Rightarrow> Inl e | Inr s' \<Rightarrow> body a s')"
  by (induction xs arbitrary: s) (auto split: sum.splits)

lemma for_each_append:
  "for_each (xs @ ys) body s =
     (case for_each xs body s of Inl e \<Rightarrow> Inl e | Inr s' \<Rightarrow> for_each ys body s')"
  by (induction xs arbitrary: s) (auto split: sum.splits)

lemma for_each_upt:
  assumes "Inv 0 s"
    and "\<And>k t. k < n \<Longrightarrow> Inv k t \<Longrightarrow> \<exists>t'. body k t = Inr t' \<and> Inv (Suc k) t'"
  shows "\<exists>s'. for_each [0..<n] body s = Inr s' \<and> Inv n s'"
  using assms(2)
proof (induction n)
  case 0
  then show ?case using assms(1) by simp
next
  case (Suc n)
  have "\<exists>s'. for_each [0..<n] body s = Inr s' \<and> Inv n s'"
    by (rule Suc.IH) (use Suc.prems in auto)
  then obtain s1 where s1: "for_each [0..<n] body s = Inr s1" "Inv n s1" by blast
  from Suc.prems [of n s1] s1(2) obtain s2 where s2: "body n s1 = Inr s2" "Inv (Suc n) s2"
    by auto
  show ?case using s1 s2 by (simp add: for_each_snoc)
qed

lemma store_samples_result:
  assumes "i < length buf" and "F * j + k + length ss \<le> length (buf ! i)"
    and "F * j + k + length ss \<le> 2 ^ 31"
  shows "\<exists>buf'. store_samples ss k sample i F j buf = Inr buf' \<and>
           length buf' = length buf \<and>
           (\<forall>i'. i' \<noteq> i \<longrightarrow> buf' ! i' = buf ! i') \<and>
           length (buf' ! i) = length (buf ! i) \<and>
           (\<forall>idx < length (buf ! i). buf' ! i ! idx =
              (if F * j + k \<le> idx \<and> idx < F * j + k + length ss
               then Some (sample (ss ! (idx - (F * j + k)))) else buf ! i ! idx))"
  using assms
proof (induction ss arbitrary: k buf)
  case Nil
  then show ?case by auto
next
  case (Cons s ss)
  let ?b1 = "buf[i := (buf ! i)[F * j + k := Some (sample s)]]"
  have idx: "int_index F j k = Some (F * j + k)"
    using Cons.prems(3) by (simp add: int_index_def)
  have set: "buf_set buf i (F * j + k) (sample s) = Inr ?b1"
    using Cons.prems by (simp add: buf_set_def)
  have p1: "i < length ?b1" "F * j + (k + 1) + length ss \<le> length (?b1 ! i)"
    "F * j + (k + 1) + length ss \<le> 2 ^ 31"
    using Cons.prems by simp_all
  from Cons.IH [OF p1] obtain buf' where
    r: "store_samples ss (k + 1) sample i F j ?b1 = Inr buf'"
    and l: "length buf' = length ?b1"
    and o: "\<forall>i'. i' \<noteq> i \<longrightarrow> buf' ! i' = ?b1 ! i'"
    and li: "length (buf' ! i) = length (?b1 ! i)"
    and v: "\<forall>idx < length (?b1 ! i). buf' ! i ! idx =
              (if F * j + (k + 1) \<le> idx \<and> idx < F * j + (k + 1) + length ss
               then Some (sample (ss ! (idx - (F * j + (k + 1))))) else ?b1 ! i ! idx)"
    by blast
  have "store_samples (s # ss) k sample i F j buf = Inr buf'"
    using idx set r by simp
  moreover have "length buf' = length buf" using l by simp
  moreover have "\<forall>i'. i' \<noteq> i \<longrightarrow> buf' ! i' = buf ! i'" using o by simp
  moreover have "length (buf' ! i) = length (buf ! i)" using li Cons.prems by simp
  moreover have "\<forall>idx < length (buf ! i). buf' ! i ! idx =
              (if F * j + k \<le> idx \<and> idx < F * j + k + length (s # ss)
               then Some (sample ((s # ss) ! (idx - (F * j + k)))) else buf ! i ! idx)"
  proof (intro allI impI)
    fix idx assume lt: "idx < length (buf ! i)"
    then have lt1: "idx < length (?b1 ! i)" using Cons.prems by simp
    show "buf' ! i ! idx =
              (if F * j + k \<le> idx \<and> idx < F * j + k + length (s # ss)
               then Some (sample ((s # ss) ! (idx - (F * j + k)))) else buf ! i ! idx)"
    proof (cases "idx = F * j + k")
      case True
      then show ?thesis using v lt1 Cons.prems by simp
    next
      case False
      then have "?b1 ! i ! idx = buf ! i ! idx" using Cons.prems by simp
      moreover have "F * j + k \<le> idx \<Longrightarrow> (s # ss) ! (idx - (F * j + k)) = ss ! (idx - (F * j + (k + 1)))"
        using False by (simp add: nth_Cons')
      ultimately show ?thesis using v lt1 False by auto
    qed
  qed
  ultimately show ?case by blast
qed

lemma store_samples_overflow:
  assumes "i < length buf" and "F * j + k + length ss \<le> length (buf ! i)"
    and "F * j + k \<le> 2 ^ 31" and "2 ^ 31 < F * j + k + length ss"
  shows "store_samples ss k sample i F j buf = Inl IntOverflow"
  using assms
proof (induction ss arbitrary: k buf)
  case Nil
  then show ?case by simp
next
  case (Cons s ss)
  show ?case
  proof (cases "F * j + k < 2 ^ 31")
    case False
    then show ?thesis by (simp add: int_index_def)
  next
    case True
    let ?b1 = "buf[i := (buf ! i)[F * j + k := Some (sample s)]]"
    have idx: "int_index F j k = Some (F * j + k)"
      using True by (simp add: int_index_def)
    have set: "buf_set buf i (F * j + k) (sample s) = Inr ?b1"
      using Cons.prems by (simp add: buf_set_def)
    have p1: "i < length ?b1" "F * j + (k + 1) + length ss \<le> length (?b1 ! i)"
      "F * j + (k + 1) \<le> 2 ^ 31" "2 ^ 31 < F * j + (k + 1) + length ss"
      using Cons.prems True by simp_all
    have "store_samples ss (k + 1) sample i F j ?b1 = Inl IntOverflow"
      by (rule Cons.IH [OF p1])
    then show ?thesis using idx set by simp
  qed
qed

lemma slot_index:
  fixes F :: nat
  assumes "F * j \<le> idx" and "idx < F * j + F"
  shows "idx div F = j" and "idx mod F = idx - F * j"
proof -
  have F: "0 < F" using assms by (cases F) auto
  obtain r where r: "idx = F * j + r" "r < F"
    using assms by (metis add_diff_inverse_nat less_diff_conv2 not_less add.commute)
  show "idx div F = j" using r F by simp
  show "idx mod F = idx - F * j" using r F by simp
qed

lemma sample_row_loop:
  assumes i: "i < length buf"
    and len: "n * length fl \<le> length (buf ! i)"
    and int: "length fl * n \<le> 2 ^ 31"
    and empty: "\<forall>idx < length (buf ! i). buf ! i ! idx = None"
  shows "\<exists>buf'. for_each [0..<n]
             (\<lambda>j buf.
                let y = coordinate (Deltay cfg) j (ymin cfg)
                in store_samples fl 0 (\<lambda>s. interpolate s (grid_x cfg i) y)
                     i (length fl) j buf) buf = Inr buf' \<and>
           length buf' = length buf \<and>
           (\<forall>i'. i' \<noteq> i \<longrightarrow> buf' ! i' = buf ! i') \<and>
           length (buf' ! i) = length (buf ! i) \<and>
           (\<forall>idx < length (buf ! i). buf' ! i ! idx = sampled_row interpolate fl cfg i n idx)"
proof -
  let ?F = "length fl"
  let ?Inv = "\<lambda>j b. length b = length buf \<and>
           (\<forall>i'. i' \<noteq> i \<longrightarrow> b ! i' = buf ! i') \<and>
           length (b ! i) = length (buf ! i) \<and>
           (\<forall>idx < length (buf ! i). b ! i ! idx = sampled_row interpolate fl cfg i j idx)"
  have init: "?Inv 0 buf"
    using empty by (simp add: sampled_row_def)
  have step: "\<exists>t'. (let y = coordinate (Deltay cfg) k (ymin cfg)
                in store_samples fl 0 (\<lambda>s. interpolate s (grid_x cfg i) y)
                     i ?F k t) = Inr t' \<and> ?Inv (Suc k) t'"
    if k: "k < n" and inv: "?Inv k t" for k t
  proof -
    have it: "i < length t" using inv i by simp
    have le: "?F * k + ?F \<le> n * ?F"
    proof -
      have "Suc k \<le> n" using k by simp
      then have "Suc k * ?F \<le> n * ?F" by (rule mult_le_mono1)
      then show ?thesis by (simp add: mult.commute)
    qed
    then have bound: "?F * k + 0 + length fl \<le> length (t ! i)"
      using inv len by simp
    have bound2: "?F * k + 0 + length fl \<le> 2 ^ 31"
      using le int by (simp add: mult.commute)
    from store_samples_result [OF it bound bound2,
        of "\<lambda>s. interpolate s (grid_x cfg i) (grid_y cfg k)"]
    obtain t' where
      r: "store_samples fl 0 (\<lambda>s. interpolate s (grid_x cfg i) (grid_y cfg k)) i ?F k t = Inr t'"
      and l: "length t' = length t"
      and o: "\<forall>i'. i' \<noteq> i \<longrightarrow> t' ! i' = t ! i'"
      and li: "length (t' ! i) = length (t ! i)"
      and v: "\<forall>idx < length (t ! i). t' ! i ! idx =
              (if ?F * k + 0 \<le> idx \<and> idx < ?F * k + 0 + length fl
               then Some (interpolate (fl ! (idx - (?F * k + 0))) (grid_x cfg i) (grid_y cfg k))
               else t ! i ! idx)"
      by blast
    have v': "t' ! i ! idx =
              (if ?F * k \<le> idx \<and> idx < ?F * k + ?F
               then Some (interpolate (fl ! (idx - ?F * k)) (grid_x cfg i) (grid_y cfg k))
               else t ! i ! idx)" if "idx < length (t ! i)" for idx
      using v that by simp
    have "\<forall>idx < length (buf ! i). t' ! i ! idx = sampled_row interpolate fl cfg i (Suc k) idx"
    proof (intro allI impI)
      fix idx assume lt: "idx < length (buf ! i)"
      then have lt': "idx < length (t ! i)" using inv by simp
      show "t' ! i ! idx = sampled_row interpolate fl cfg i (Suc k) idx"
      proof (cases "?F * k \<le> idx \<and> idx < ?F * k + ?F")
        case True
        then have "idx div ?F = k" "idx mod ?F = idx - ?F * k"
          using slot_index [of ?F k idx] by simp_all
        then show ?thesis using v' [OF lt'] True by (simp add: sampled_row_def)
      next
        case False
        then have "t' ! i ! idx = t ! i ! idx" using v' [OF lt'] by auto
        also have "\<dots> = sampled_row interpolate fl cfg i k idx" using inv lt by simp
        also have "\<dots> = sampled_row interpolate fl cfg i (Suc k) idx"
          using False by (auto simp: sampled_row_def)
        finally show ?thesis .
      qed
    qed
    then have "?Inv (Suc k) t'"
      using l o li inv by simp
    then show ?thesis using r by (simp add: grid_y_def)
  qed
  let ?body = "\<lambda>j buf.
                let y = coordinate (Deltay cfg) j (ymin cfg)
                in store_samples fl 0 (\<lambda>s. interpolate s (grid_x cfg i) y)
                     i (length fl) j buf"
  have "\<exists>s'. for_each [0..<n] ?body buf = Inr s' \<and> ?Inv n s'"
  proof (rule for_each_upt [where Inv = ?Inv])
    show "?Inv 0 buf" by (rule init)
  next
    fix k t assume "k < n" and "?Inv k t"
    then show "\<exists>t'. ?body k t = Inr t' \<and> ?Inv (Suc k) t'" by (rule step)
  qed
  then show ?thesis by blast
qed

lemma sample_row_overflow:
  assumes i: "i < length buf"
    and len: "n * length fl \<le> length (buf ! i)"
    and int: "2 ^ 31 < length fl * n"
    and empty: "\<forall>idx < length (buf ! i). buf ! i ! idx = None"
  shows "for_each [0..<n]
             (\<lambda>j buf.
                let y = coordinate (Deltay cfg) j (ymin cfg)
                in store_samples fl 0 (\<lambda>s. interpolate s (grid_x cfg i) y)
                     i (length fl) j buf) buf = Inl IntOverflow"
proof -
  let ?F = "length fl"
  let ?body = "\<lambda>j buf.
                let y = coordinate (Deltay cfg) j (ymin cfg)
                in store_samples fl 0 (\<lambda>s. interpolate s (grid_x cfg i) y)
                     i (length fl) j buf"
  define j0 :: nat where "j0 = 2 ^ 31 div ?F"
  have F: "0 < ?F" using int by (cases "?F") auto
  have lo: "?F * j0 \<le> 2 ^ 31"
    by (simp add: j0_def)
  have hi: "2 ^ 31 < ?F * j0 + ?F"
  proof -
    have "(2::nat) ^ 31 = ?F * j0 + 2 ^ 31 mod ?F" by (simp add: j0_def)
    moreover have "(2::nat) ^ 31 mod ?F < ?F" using F by simp
    ultimately show ?thesis by linarith
  qed
  have j0n: "j0 < n"
  proof (rule ccontr)
    assume "\<not> j0 < n"
    then have "n \<le> j0" by simp
    then have "?F * n \<le> ?F * j0" by simp
    then show False using lo int by linarith
  qed
  have split: "[0..<n] = [0..<j0] @ j0 # [Suc j0..<n]"
    using j0n by (metis le0 upt_add_eq_append upt_conv_Cons less_imp_le_nat le_add_diff_inverse)
  have len0: "j0 * ?F \<le> length (buf ! i)"
  proof -
    have "j0 \<le> n" using j0n by simp
    then have "j0 * ?F \<le> n * ?F" by (rule mult_le_mono1)
    then show ?thesis using len by linarith
  qed
  from sample_row_loop [OF i len0 lo empty, of cfg interpolate]
  obtain t where t: "for_each [0..<j0] ?body buf = Inr t"
    and l: "length t = length buf" and li: "length (t ! i) = length (buf ! i)"
    by blast
  have it: "i < length t" using i l by simp
  have "?F * j0 + ?F \<le> n * ?F"
  proof -
    have "Suc j0 \<le> n" using j0n by simp
    then have "Suc j0 * ?F \<le> n * ?F" by (rule mult_le_mono1)
    then show ?thesis by (simp add: mult.commute)
  qed
  then have b: "?F * j0 + 0 + length fl \<le> length (t ! i)" using len li by simp
  have lo': "?F * j0 + 0 \<le> 2 ^ 31" using lo by simp
  have hi': "2 ^ 31 < ?F * j0 + 0 + length fl" using hi by simp
  have "?body j0 t = Inl IntOverflow"
    using store_samples_overflow [OF it b lo' hi'] by simp
  then show ?thesis
    using t by (simp add: split for_each_append)
qed

lemma sample_fields_result:
  assumes "length fl * nat (ny cfg) \<le> 2 ^ 31"
  shows "\<exists>buf'. sample_fields interpolate fl cfg
             (matrix_new (nat (nx cfg)) (nat (ny cfg + 1)) (length fl)) (length fl) = Inr buf' \<and>
          length buf' = nat (nx cfg) \<and>
          (\<forall>i < nat (nx cfg).
             length (buf' ! i) = nat (ny cfg + 1) * length fl \<and>
             (\<forall>idx < nat (ny cfg + 1) * length fl.
                buf' ! i ! idx = sampled_row interpolate fl cfg i (nat (ny cfg)) idx))"
proof -
  let ?F = "length fl" and ?N = "nat (nx cfg)" and ?n = "nat (ny cfg)"
  let ?L = "nat (ny cfg + 1) * length fl"
  let ?buf = "matrix_new ?N (nat (ny cfg + 1)) ?F"
  let ?Inv = "\<lambda>i b. length b = ?N \<and>
      (\<forall>i' < ?N. length (b ! i') = ?L \<and>
         (\<forall>idx < ?L. b ! i' ! idx =
            (if i' < i then sampled_row interpolate fl cfg i' ?n idx else None)))"
  let ?inner = "\<lambda>i. (\<lambda>j buf.
                let y = coordinate (Deltay cfg) j (ymin cfg)
                in store_samples fl 0 (\<lambda>s. interpolate s (grid_x cfg i) y)
                     i (length fl) j buf)"
  let ?body = "\<lambda>i buf. for_each [0..<?n] (?inner i) buf"
  have nL: "?n * ?F \<le> ?L"
    by (intro mult_le_mono1) simp
  have init: "?Inv 0 ?buf"
    by (simp add: matrix_new_def)
  have step: "\<exists>t'. ?body i t = Inr t' \<and> ?Inv (Suc i) t'" if i: "i < ?N" and inv: "?Inv i t" for i t
  proof -
    have a: "i < length t" using i inv by simp
    have b: "?n * ?F \<le> length (t ! i)" using nL i inv by simp
    have c: "\<forall>idx < length (t ! i). t ! i ! idx = None" using i inv by simp
    from sample_row_loop [OF a b assms c, of cfg interpolate]
    obtain t' where r: "?body i t = Inr t'"
      and l: "length t' = length t"
      and o: "\<forall>i'. i' \<noteq> i \<longrightarrow> t' ! i' = t ! i'"
      and li: "length (t' ! i) = length (t ! i)"
      and v: "\<forall>idx < length (t ! i). t' ! i ! idx = sampled_row interpolate fl cfg i ?n idx"
      by blast
    have "?Inv (Suc i) t'"
    proof (intro conjI allI impI)
      show "length t' = ?N" using l inv by simp
    next
      fix i' assume "i' < ?N"
      then show "length (t' ! i') = ?L" using o li inv by (cases "i' = i") auto
    next
      fix i' idx assume i': "i' < ?N" and idx: "idx < ?L"
      show "t' ! i' ! idx =
            (if i' < Suc i then sampled_row interpolate fl cfg i' ?n idx else None)"
      proof (cases "i' = i")
        case True
        then show ?thesis using v idx i inv by simp
      next
        case False
        then have "t' ! i' = t ! i'" using o by simp
        then show ?thesis using inv i' idx False by (auto simp: less_Suc_eq)
      qed
    qed
    then show ?thesis using r by blast
  qed
  have "\<exists>s'. for_each [0..<?N] ?body ?buf = Inr s' \<and> ?Inv ?N s'"
  proof (rule for_each_upt [where Inv = ?Inv])
    show "?Inv 0 ?buf" by (rule init)
  next
    fix k t assume "k < ?N" and "?Inv k t"
    then show "\<exists>t'. ?body k t = Inr t' \<and> ?Inv (Suc k) t'" by (rule step)
  qed
  then obtain s' where s': "for_each [0..<?N] ?body ?buf = Inr s'" "?Inv ?N s'" by blast
  have "sample_fields interpolate fl cfg ?buf ?F = Inr s'"
    using s'(1) by (simp add: sample_fields_def grid_x_def)
  then show ?thesis using s'(2) by auto
qed

lemma sample_fields_overflow:
  assumes nx: "0 < nx cfg" and int: "2 ^ 31 < length fl * nat (ny cfg)"
  shows "sample_fields interpolate fl cfg
           (matrix_new (nat (nx cfg)) (nat (ny cfg + 1)) (length fl)) (length fl)
         = Inl IntOverflow"
proof -
  let ?F = "length fl" and ?N = "nat (nx cfg)" and ?n = "nat (ny cfg)"
  let ?buf = "matrix_new ?N (nat (ny cfg + 1)) ?F"
  have N: "[0..<?N] = 0 # [1..<?N]"
    using nx by (simp add: upt_conv_Cons)
  have a: "0 < length ?buf" using nx by (simp add: matrix_new_def)
  have b: "?n * ?F \<le> length (?buf ! 0)"
  proof -
    have "?n * ?F \<le> nat (ny cfg + 1) * ?F" by (intro mult_le_mono1) simp
    then show ?thesis using nx by (simp add: matrix_new_def)
  qed
  have c: "\<forall>idx < length (?buf ! 0). ?buf ! 0 ! idx = None"
    using nx by (simp add: matrix_new_def)
  have "for_each [0..<?n]
             (\<lambda>j buf.
                let y = coordinate (Deltay cfg) j (ymin cfg)
                in store_samples fl 0 (\<lambda>s. interpolate s (grid_x cfg 0) y)
                     0 (length fl) j buf) ?buf = Inl IntOverflow"
    by (rule sample_row_overflow [OF a b int c])
  then show ?thesis
    by (simp add: sample_fields_def N grid_x_def)
qed

lemma print_samples_result:
  assumes "i < length buf" and "length vals = length ss"
    and "F * j + k + length ss \<le> length (buf ! i)"
    and "F * j + k + length ss \<le> 2 ^ 31"
    and "\<forall>t < length ss. buf ! i ! (F * j + k + t) = Some (vals ! t)"
  shows "print_samples ss k buf i F j fp =
           Inr (fp @ concat (map (\<lambda>v. [Ch CHR '' '', G (Fin v)]) vals))"
  using assms
proof (induction ss arbitrary: k vals fp)
  case Nil
  then show ?case by simp
next
  case (Cons s ss)
  then obtain v vs where vals: "vals = v # vs" by (cases vals) auto
  have idx: "int_index F j k = Some (F * j + k)"
    using Cons.prems(4) by (simp add: int_index_def)
  have g: "buf_get buf i (F * j + k) = Inr v"
    using Cons.prems vals by (auto simp: buf_get_def)
  have ih: "print_samples ss (k + 1) buf i F j (fp @ [Ch CHR '' '', G (Fin v)]) =
            Inr ((fp @ [Ch CHR '' '', G (Fin v)]) @
                 concat (map (\<lambda>v. [Ch CHR '' '', G (Fin v)]) vs))"
  proof (rule Cons.IH)
    show "i < length buf" by (rule Cons.prems(1))
    show "length vs = length ss" using Cons.prems(2) vals by simp
    show "F * j + (k + 1) + length ss \<le> length (buf ! i)" using Cons.prems(3) by simp
    show "F * j + (k + 1) + length ss \<le> 2 ^ 31" using Cons.prems(4) by simp
    show "\<forall>t<length ss. buf ! i ! (F * j + (k + 1) + t) = Some (vs ! t)"
    proof (intro allI impI)
      fix t assume "t < length ss"
      then have "buf ! i ! (F * j + k + Suc t) = Some (vals ! Suc t)"
        using Cons.prems(5) by auto
      then show "buf ! i ! (F * j + (k + 1) + t) = Some (vs ! t)"
        using vals by simp
    qed
  qed
  show ?case using idx g ih vals by simp
qed

subsection \<open>The loops of the writer\<close>

lemma grid_rows_append:
  "grid_rows interpolate fl cfg (ps @ qs) =
     grid_rows interpolate fl cfg ps @ grid_rows interpolate fl cfg qs"
  by (simp add: grid_rows_def)

lemma write_row_loop:
  assumes i: "i < length buf"
    and len: "n * length fl \<le> length (buf ! i)"
    and int: "length fl * n \<le> 2 ^ 31"
    and vals: "\<forall>idx < n * length fl. buf ! i ! idx = sampled_row interpolate fl cfg i n idx"
  shows "for_each [0..<n]
           (\<lambda>j fp.
              let y = coordinate (Deltay cfg) j (ymin cfg)
              in case print_samples fl 0 buf i (length fl) j
                        (fp @ [G (grid_x cfg i), Ch CHR '' '', G y]) of
                   Inl e \<Rightarrow> Inl e
                 | Inr fp' \<Rightarrow> Inr (fp' @ [Ch CHR ''\<newline>'']))
           fp
         = Inr (fp @ grid_rows interpolate fl cfg (map (Pair i) [0..<n]))"
proof -
  let ?F = "length fl"
  let ?body = "\<lambda>j fp.
              let y = coordinate (Deltay cfg) j (ymin cfg)
              in case print_samples fl 0 buf i (length fl) j
                        (fp @ [G (grid_x cfg i), Ch CHR '' '', G y]) of
                   Inl e \<Rightarrow> Inl e
                 | Inr fp' \<Rightarrow> Inr (fp' @ [Ch CHR ''\<newline>''])"
  let ?Inv = "\<lambda>j t. t = fp @ grid_rows interpolate fl cfg (map (Pair i) [0..<j])"
  have step: "\<exists>t'. ?body k t = Inr t' \<and> ?Inv (Suc k) t'" if k: "k < n" and inv: "?Inv k t" for k t
  proof -
    have le: "?F * k + ?F \<le> n * ?F"
    proof -
      have "Suc k \<le> n" using k by simp
      then have "Suc k * ?F \<le> n * ?F" by (rule mult_le_mono1)
      then show ?thesis by (simp add: mult.commute)
    qed
    have b: "?F * k + 0 + length fl \<le> length (buf ! i)" using le len by simp
    have b2: "?F * k + 0 + length fl \<le> 2 ^ 31" using le int by (simp add: mult.commute)
    have v: "\<forall>t < length fl. buf ! i ! (?F * k + 0 + t) = Some (sample_values interpolate fl cfg i k ! t)"
    proof (intro allI impI)
      fix t assume t: "t < length fl"
      then have lt: "?F * k + t < n * ?F" using le by simp
      have "(?F * k + t) div ?F = k" "(?F * k + t) mod ?F = t"
        using slot_index [of ?F k "?F * k + t"] t by simp_all
      then have "sampled_row interpolate fl cfg i n (?F * k + t) =
                 Some (interpolate (fl ! t) (grid_x cfg i) (grid_y cfg k))"
        using lt by (simp add: sampled_row_def mult.commute)
      then show "buf ! i ! (?F * k + 0 + t) = Some (sample_values interpolate fl cfg i k ! t)"
        using vals lt t by (simp add: sample_values_def)
    qed
    have "print_samples fl 0 buf i ?F k (t @ [G (grid_x cfg i), Ch CHR '' '', G (grid_y cfg k)])
          = Inr ((t @ [G (grid_x cfg i), Ch CHR '' '', G (grid_y cfg k)]) @
                 concat (map (\<lambda>v. [Ch CHR '' '', G (Fin v)]) (sample_values interpolate fl cfg i k)))"
      by (rule print_samples_result [OF i _ b b2 v]) (simp add: sample_values_def)
    then have "?body k t = Inr (t @ row_items (grid_x cfg i) (grid_y cfg k)
                                       (sample_values interpolate fl cfg i k))"
      by (simp add: row_items_def grid_y_def)
    then show ?thesis
      using inv by (simp add: grid_rows_def)
  qed
  have "\<exists>s'. for_each [0..<n] ?body fp = Inr s' \<and> ?Inv n s'"
  proof (rule for_each_upt [where Inv = ?Inv])
    show "?Inv 0 fp" by (simp add: grid_rows_def)
  next
    fix k t assume "k < n" and "?Inv k t"
    then show "\<exists>t'. ?body k t = Inr t' \<and> ?Inv (Suc k) t'" by (rule step)
  qed
  then show ?thesis by auto
qed

lemma write_fields_result:
  assumes len: "length buf = nat (nx cfg)"
    and int: "length fl * nat (ny cfg) \<le> 2 ^ 31"
    and rows: "\<forall>i < nat (nx cfg).
             nat (ny cfg) * length fl \<le> length (buf ! i) \<and>
             (\<forall>idx < nat (ny cfg) * length fl.
                buf ! i ! idx = sampled_row interpolate fl cfg i (nat (ny cfg)) idx)"
  shows "write_fields fl cfg buf (length fl) fp =
           Inr (fp @ grid_rows interpolate fl cfg
                       (List.product [0..<nat (nx cfg)] [0..<nat (ny cfg)]))"
proof -
  let ?N = "nat (nx cfg)" and ?n = "nat (ny cfg)"
  let ?inner = "\<lambda>i. (\<lambda>j fp.
              let y = coordinate (Deltay cfg) j (ymin cfg)
              in case print_samples fl 0 buf i (length fl) j
                        (fp @ [G (grid_x cfg i), Ch CHR '' '', G y]) of
                   Inl e \<Rightarrow> Inl e
                 | Inr fp' \<Rightarrow> Inr (fp' @ [Ch CHR ''\<newline>'']))"
  let ?body = "\<lambda>i fp. for_each [0..<?n] (?inner i) fp"
  let ?Inv = "\<lambda>i t. t = fp @ grid_rows interpolate fl cfg (List.product [0..<i] [0..<?n])"
  have step: "\<exists>t'. ?body i t = Inr t' \<and> ?Inv (Suc i) t'" if i: "i < ?N" and inv: "?Inv i t" for i t
  proof -
    have a: "i < length buf" using i len by simp
    have b: "?n * length fl \<le> length (buf ! i)" using rows i by simp
    have c: "\<forall>idx < ?n * length fl. buf ! i ! idx = sampled_row interpolate fl cfg i ?n idx"
      using rows i by simp
    have "?body i t = Inr (t @ grid_rows interpolate fl cfg (map (Pair i) [0..<?n]))"
      by (rule write_row_loop [OF a b int c])
    moreover have "List.product [0..<Suc i] [0..<?n] =
                   List.product [0..<i] [0..<?n] @ map (Pair i) [0..<?n]"
      by (simp add: product_concat_map)
    ultimately show ?thesis using inv by (simp add: grid_rows_append)
  qed
  have "\<exists>s'. for_each [0..<?N] ?body fp = Inr s' \<and> ?Inv ?N s'"
  proof (rule for_each_upt [where Inv = ?Inv])
    show "?Inv 0 fp" by (simp add: grid_rows_def)
  next
    fix k t assume "k < ?N" and "?Inv k t"
    then show "\<exists>t'. ?body k t = Inr t' \<and> ?Inv (Suc k) t'" by (rule step)
  qed
  then show ?thesis by (auto simp: write_fields_def grid_x_def)
qed

subsection \<open>The stream of a complete run\<close>

lemma lines_acc_line:
  "Ch CHR ''\<newline>'' \<notin> set xs \<Longrightarrow>
   lines_acc acc (xs @ Ch CHR ''\<newline>'' # rest) = (rev acc @ xs) # lines_acc [] rest"
  by (induction xs arbitrary: acc) auto

lemma g_values_append: "g_values (xs @ ys) = g_values xs @ g_values ys"
  by (induction xs) (auto split: item.splits)

lemma g_values_samples:
  "g_values (concat (map (\<lambda>v. [Ch CHR '' '', G (Fin v)]) vals)) = map Fin vals"
  by (induction vals) auto

lemma output_rows_row_items:
  "output_rows (row_items x y vals @ rest) = (x # y # map Fin vals) # output_rows rest"
proof -
  let ?body = "[G x, Ch CHR '' '', G y] @ concat (map (\<lambda>v. [Ch CHR '' '', G (Fin v)]) vals)"
  have nl: "Ch CHR ''\<newline>'' \<notin> set ?body" by auto
  have "row_items x y vals @ rest = ?body @ Ch CHR ''\<newline>'' # rest"
    by (simp add: row_items_def)
  then have "lines_acc [] (row_items x y vals @ rest) = ?body # lines_acc [] rest"
    using lines_acc_line [OF nl, of "[]" rest] by simp
  moreover have "g_values ?body = x # y # map Fin vals"
    using g_values_samples [of vals] by simp
  ultimately show ?thesis
    by (simp add: output_rows_def del: g_values.simps)
qed

lemma output_rows_grid_rows:
  "output_rows (grid_rows interpolate fl cfg ps) =
     map (\<lambda>(i, j). grid_x cfg i # grid_y cfg j #
                      map Fin (sample_values interpolate fl cfg i j)) ps"
proof (induction ps)
  case Nil
  then show ?case by (simp add: grid_rows_def output_rows_def)
next
  case (Cons p ps)
  obtain i j where p: "p = (i, j)" by (cases p)
  have "grid_rows interpolate fl cfg (p # ps) =
        row_items (grid_x cfg i) (grid_y cfg j) (sample_values interpolate fl cfg i j) @
        grid_rows interpolate fl cfg ps"
    by (simp add: grid_rows_def p)
  then show ?case
    using Cons.IH by (simp add: output_rows_row_items p)
qed

lemma register_fields_Nil: "register_fields [] = [D2c, vel]"
  by (simp add: register_fields_def list_add_def)

lemma main_success:
  assumes p: "parse_arguments argv uninit_cfg [] = (Inr cfg0, err0)"
    and c: "configure_grid cfg0 err0 = (Inr cfg, err)"
    and f: "fits_int cfg 2"
  shows "main AXI restore interpolate argv =
     \<lparr>status = Inr 0,
      ferr = grid_rows (\<lambda>s. interpolate (restore (filename cfg))
                           (compute_fields AXI (restore (filename cfg)) (\<lambda>s. []) s))
               [D2c, vel] cfg (List.product [0..<nat (nx cfg)] [0..<nat (ny cfg)]),
      calls = all_calls\<rparr>"
proof -
  let ?m = "restore (filename cfg)"
  let ?I = "\<lambda>s. interpolate ?m (compute_fields AXI ?m (\<lambda>s. []) s)"
  let ?fl = "[D2c, vel]"
  let ?b0 = "matrix_new (nat (nx cfg)) (nat (ny cfg + 1)) (length ?fl)"
  have e0: "err0 = []" using parse_arguments_stream [OF p] .
  have e: "err = []" using configure_grid_stream [OF c] e0 by simp
  have int: "length ?fl * nat (ny cfg) \<le> 2 ^ 31" using f by (simp add: fits_int_def)
  have a: "allocate_field_buffer cfg (length ?fl) = Inr ?b0"
    using f by (simp add: allocate_field_buffer_def fits_int_def)
  from sample_fields_result [OF int, of ?I]
  obtain buf where s: "sample_fields ?I ?fl cfg ?b0 (length ?fl) = Inr buf"
    and l: "length buf = nat (nx cfg)"
    and r: "\<forall>i < nat (nx cfg).
             length (buf ! i) = nat (ny cfg + 1) * length ?fl \<and>
             (\<forall>idx < nat (ny cfg + 1) * length ?fl.
                buf ! i ! idx = sampled_row ?I ?fl cfg i (nat (ny cfg)) idx)"
    by blast
  have le: "nat (ny cfg) * length ?fl \<le> nat (ny cfg + 1) * length ?fl"
    by (intro mult_le_mono1) simp
  have rows: "\<forall>i < nat (nx cfg).
             nat (ny cfg) * length ?fl \<le> length (buf ! i) \<and>
             (\<forall>idx < nat (ny cfg) * length ?fl.
                buf ! i ! idx = sampled_row ?I ?fl cfg i (nat (ny cfg)) idx)"
  proof (intro allI impI conjI)
    fix i assume "i < nat (nx cfg)"
    then show "nat (ny cfg) * length ?fl \<le> length (buf ! i)" using r le by simp
  next
    fix i idx assume i: "i < nat (nx cfg)" and "idx < nat (ny cfg) * length ?fl"
    then have "idx < nat (ny cfg + 1) * length ?fl" using le by linarith
    then show "buf ! i ! idx = sampled_row ?I ?fl cfg i (nat (ny cfg)) idx"
      using r i by blast
  qed
  have w: "write_fields ?fl cfg buf (length ?fl) [] =
           Inr ([] @ grid_rows ?I ?fl cfg (List.product [0..<nat (nx cfg)] [0..<nat (ny cfg)]))"
    by (rule write_fields_result [OF l int rows])
  show ?thesis
    using p c e0 e a s w
    by (simp add: main_def register_fields_Nil Let_def all_calls_def)
qed

lemma main_overflow:
  assumes p: "parse_arguments argv uninit_cfg [] = (Inr cfg0, err0)"
    and c: "configure_grid cfg0 err0 = (Inr cfg, err)"
    and f: "\<not> fits_int cfg 2"
  shows "status (main AXI restore interpolate argv) = Inl IntOverflow \<and>
         ferr (main AXI restore interpolate argv) = []"
proof -
  let ?m = "restore (filename cfg)"
  let ?I = "\<lambda>s. interpolate ?m (compute_fields AXI ?m (\<lambda>s. []) s)"
  let ?fl = "[D2c, vel]"
  let ?b0 = "matrix_new (nat (nx cfg)) (nat (ny cfg + 1)) (length ?fl)"
  have e0: "err0 = []" using parse_arguments_stream [OF p] .
  have e: "err = []" using configure_grid_stream [OF c] e0 by simp
  have z: "\<not> returns_zero IntOverflow" by (simp add: returns_zero_def)
  show ?thesis
  proof (cases "ny cfg + 1 < 2 ^ 31")
    case False
    then have "allocate_field_buffer cfg (length ?fl) = Inl IntOverflow"
      by (simp add: allocate_field_buffer_def)
    then show ?thesis
      using p c e0 e z by (simp add: main_def register_fields_Nil Let_def give_up_def)
  next
    case True
    then have a: "allocate_field_buffer cfg (length ?fl) = Inr ?b0"
      by (simp add: allocate_field_buffer_def)
    have int: "2 ^ 31 < length ?fl * nat (ny cfg)"
      using f True by (simp add: fits_int_def)
    have nx: "0 < nx cfg" using configure_grid_sizes [OF c] by simp
    have s: "sample_fields ?I ?fl cfg ?b0 (length ?fl) = Inl IntOverflow"
      by (rule sample_fields_overflow [OF nx int])
    show ?thesis
      using p c e0 e a s z by (simp add: main_def register_fields_Nil Let_def give_up_def)
  qed
qed

subsection \<open>Runs, slots and the example\<close>

lemma compute_fields_D2c: "compute_fields AXI m st D2c = map (D2c_cell AXI) m"
  by (simp add: compute_fields_def compute_velocity_field_def compute_D2c_field_def)

lemma compute_fields_vel: "compute_fields AXI m st vel = map vel_cell m"
  by (simp add: compute_fields_def compute_velocity_field_def compute_D2c_field_def)

lemma main_cases:
  obtains (parse) e err where "parse_arguments argv uninit_cfg [] = (Inl e, err)"
  | (grid) cfg0 err0 e err where "parse_arguments argv uninit_cfg [] = (Inr cfg0, err0)"
      "configure_grid cfg0 err0 = (Inl e, err)"
  | (overflow) cfg0 err0 cfg err where "parse_arguments argv uninit_cfg [] = (Inr cfg0, err0)"
      "configure_grid cfg0 err0 = (Inr cfg, err)" "\<not> fits_int cfg 2"
  | (run) cfg0 err0 cfg err where "parse_arguments argv uninit_cfg [] = (Inr cfg0, err0)"
      "configure_grid cfg0 err0 = (Inr cfg, err)" "fits_int cfg 2"
proof (cases "parse_arguments argv uninit_cfg []")
  case (Pair r err0)
  show ?thesis
  proof (cases r)
    case (Inl e)
    then show ?thesis using Pair parse by simp
  next
    case (Inr cfg0)
    show ?thesis
    proof (cases "configure_grid cfg0 err0")
      case c: (Pair r' err)
      show ?thesis
      proof (cases r')
        case (Inl e)
        then show ?thesis using Pair Inr c grid by simp
      next
        case r: (Inr cfg)
        then show ?thesis using Pair Inr c run overflow by (cases "fits_int cfg 2") simp_all
      qed
    qed
  qed
qed

lemma sampled_row_slot:
  assumes "j < n" and "k < length fl"
  shows "sampled_row interpolate fl cfg i n (length fl * j + k) =
           Some (interpolate (fl ! k) (grid_x cfg i) (grid_y cfg j))"
proof -
  have "length fl * j + length fl \<le> n * length fl"
  proof -
    have "Suc j \<le> n" using assms(1) by simp
    then have "Suc j * length fl \<le> n * length fl" by (rule mult_le_mono1)
    then show ?thesis by (simp add: mult.commute)
  qed
  then have lt: "length fl * j + k < length fl * n" using assms(2) by (simp add: mult.commute)
  have "(length fl * j + k) div length fl = j" "(length fl * j + k) mod length fl = k"
    using slot_index [of "length fl" j "length fl * j + k"] assms(2) by simp_all
  then show ?thesis using lt by (simp add: sampled_row_def)
qed

lemma sampled_row_written:
  "(sampled_row interpolate fl cfg i n idx \<noteq> None) =
     (\<exists>j < n. \<exists>k < length fl. idx = length fl * j + k)"
proof
  assume "sampled_row interpolate fl cfg i n idx \<noteq> None"
  then have lt: "idx < length fl * n" by (simp add: sampled_row_def split: if_splits)
  then have F: "0 < length fl" by (cases "length fl") auto
  have "idx div length fl < n"
    using lt F by (simp add: less_mult_imp_div_less mult.commute)
  moreover have "idx mod length fl < length fl" using F by simp
  moreover have "idx = length fl * (idx div length fl) + idx mod length fl" by simp
  ultimately show "\<exists>j < n. \<exists>k < length fl. idx = length fl * j + k" by blast
next
  assume "\<exists>j < n. \<exists>k < length fl. idx = length fl * j + k"
  then obtain j k where "j < n" "k < length fl" "idx = length fl * j + k" by blast
  then show "sampled_row interpolate fl cfg i n idx \<noteq> None"
    using sampled_row_slot [of j n k fl interpolate cfg i] by simp
qed

lemma slot_in_row:
  fixes F :: nat
  assumes "j < n" and "k < F"
  shows "F * j + k < Suc n * F"
proof -
  have "F * j + F \<le> n * F"
  proof -
    have "Suc j \<le> n" using assms(1) by simp
    then have "Suc j * F \<le> n * F" by (rule mult_le_mono1)
    then show ?thesis by (simp add: mult.commute)
  qed
  then show ?thesis using assms(2) by simp
qed

lemma atof_small:
  "atof ''0'' = Fin 0" "atof ''1'' = Fin 1" "atof ''2'' = Fin 2"
  by (simp_all add: parse_defs fl_defs)

lemma atoi_small:
  "atoi ''0'' = 0" "atoi ''1'' = 1" "atoi ''4'' = 4"
  by (simp_all add: parse_defs)

lemma example_parse:
  "parse_arguments example_argv uninit_cfg [] =
     (Inr (example_cfg\<lparr>Deltax := Fin 0, Deltay := Fin 0, nx := 0\<rparr>), [])"
  by (simp add: parse_arguments_def example_argv_def example_cfg_def uninit_cfg_def
        atof_small atoi_small dle_def)

lemma example_grid:
  "configure_grid (example_cfg\<lparr>Deltax := Fin 0, Deltay := Fin 0, nx := 0\<rparr>) [] =
     (Inr example_cfg, [])"
  by (simp add: configure_grid_def example_cfg_def op_defs fl_defs)

lemma example_fits: "fits_int example_cfg 2"
  by (simp add: fits_int_def example_cfg_def)

lemma example_coordinates:
  "coordinate (Fin (1 / 2)) 1 (Fin 0) = Fin (3 / 4)"
  by (simp add: op_defs fl_defs)



section \<open>The claims\<close>

subsection \<open>C1: grid configuration\<close>

text \<open>
  The statement of C1 fails on the code, in three ways.
  For the arguments \<^verbatim>\<open>dump 0 0 9 9 7\<close> the double \<open>\<Delta>y\<close> is not \<open>9 / 7\<close>, the double quotient
  \<open>9 / \<Delta>y\<close> is just below 7, and the run has \<open>nx = 6\<close> and \<open>\<Delta>x = 1.5\<close> where the exact
  quotients give \<open>nx = 7\<close>.
  For \<^verbatim>\<open>dump 0 0 1 1 49\<close> the run has \<open>nx = 49\<close>, and \<open>\<Delta>x * nx\<close> is not the x-span 1,
  neither as a product of real numbers nor as a double product.
  For \<^verbatim>\<open>dump 0 0 2147483648 1 1\<close> the quotient is \<open>2^31\<close>, which no \<^verbatim>\<open>int\<close> holds: the
  cast is undefined in C and the run cannot store \<open>nx = 2^31\<close>.
\<close>

theorem C1_counterexample:
  "parse_arguments [''getData'', ''dump'', ''0'', ''0'', ''9'', ''9'', ''7''] uninit_cfg [] =
     (Inr (uninit_cfg\<lparr>filename := ''dump'', xmax := Fin 9, ymax := Fin 9, ny := 7\<rparr>), []) \<and>
   configure_grid (uninit_cfg\<lparr>filename := ''dump'', xmax := Fin 9, ymax := Fin 9, ny := 7\<rparr>) [] =
     (Inr (uninit_cfg\<lparr>filename := ''dump'', xmax := Fin 9, ymax := Fin 9, ny := 7,
             Deltay := Fin (5790342378047781 / 4503599627370496), nx := 6,
             Deltax := Fin (3 / 2)\<rparr>), []) \<and>
   5790342378047781 / 4503599627370496 \<noteq> (9 - 0) / real_of_int 7 \<and>
   \<lfloor>(9 - 0) / ((9 - 0) / real_of_int 7)\<rfloor> = (7 :: int) \<and>
   parse_arguments [''getData'', ''dump'', ''0'', ''0'', ''1'', ''1'', ''49''] uninit_cfg [] =
     (Inr (uninit_cfg\<lparr>filename := ''dump'', xmax := Fin 1, ymax := Fin 1, ny := 49\<rparr>), []) \<and>
   configure_grid (uninit_cfg\<lparr>filename := ''dump'', xmax := Fin 1, ymax := Fin 1, ny := 49\<rparr>) [] =
     (Inr (uninit_cfg\<lparr>filename := ''dump'', xmax := Fin 1, ymax := Fin 1, ny := 49,
             Deltay := Fin (5882252574524729 / 288230376151711744), nx := 49,
             Deltax := Fin (5882252574524729 / 288230376151711744)\<rparr>), []) \<and>
   5882252574524729 / 288230376151711744 * real_of_int 49 \<noteq> 1 - 0 \<and>
   dmul (Fin (5882252574524729 / 288230376151711744)) (d_of_int 49) \<noteq> dsub (Fin 1) (Fin 0) \<and>
   parse_arguments [''getData'', ''dump'', ''0'', ''0'', ''2147483648'', ''1'', ''1'']
     uninit_cfg [] =
     (Inr (uninit_cfg\<lparr>filename := ''dump'', xmax := Fin 2147483648, ymax := Fin 1, ny := 1\<rparr>), []) \<and>
   configure_grid (uninit_cfg\<lparr>filename := ''dump'', xmax := Fin 2147483648, ymax := Fin 1, ny := 1\<rparr>) []
     = (Inl CastOutOfRange, []) \<and>
   status (main True example_restore example_interpolate
             [''getData'', ''dump'', ''0'', ''0'', ''2147483648'', ''1'', ''1''])
     = Inl CastOutOfRange"
proof -
  let ?a = "[''getData'', ''dump'', ''0'', ''0'', ''9'', ''9'', ''7'']"
  let ?ca = "uninit_cfg\<lparr>filename := ''dump'', xmax := Fin 9, ymax := Fin 9, ny := 7\<rparr>"
  let ?b = "[''getData'', ''dump'', ''0'', ''0'', ''1'', ''1'', ''49'']"
  let ?cb = "uninit_cfg\<lparr>filename := ''dump'', xmax := Fin 1, ymax := Fin 1, ny := 49\<rparr>"
  let ?c = "[''getData'', ''dump'', ''0'', ''0'', ''2147483648'', ''1'', ''1'']"
  let ?cc = "uninit_cfg\<lparr>filename := ''dump'', xmax := Fin 2147483648, ymax := Fin 1, ny := 1\<rparr>"
  have n: "atof ''9'' = Fin 9" "atof ''2147483648'' = Fin 2147483648"
    "atoi ''7'' = 7" "atoi ''49'' = 49"
    by (simp_all add: parse_defs fl_defs)
  have pa: "parse_arguments ?a uninit_cfg [] = (Inr ?ca, [])"
    by (simp add: parse_arguments_def uninit_cfg_def atof_small atoi_small n dle_def)
  have ga: "configure_grid ?ca [] =
     (Inr (?ca\<lparr>Deltay := Fin (5790342378047781 / 4503599627370496), nx := 6,
                Deltax := Fin (3 / 2)\<rparr>), [])"
    by (simp add: configure_grid_def uninit_cfg_def op_defs fl_defs)
  have pb: "parse_arguments ?b uninit_cfg [] = (Inr ?cb, [])"
    by (simp add: parse_arguments_def uninit_cfg_def atof_small atoi_small n dle_def)
  have gb: "configure_grid ?cb [] =
     (Inr (?cb\<lparr>Deltay := Fin (5882252574524729 / 288230376151711744), nx := 49,
                Deltax := Fin (5882252574524729 / 288230376151711744)\<rparr>), [])"
    by (simp add: configure_grid_def uninit_cfg_def op_defs fl_defs)
  have mb: "dmul (Fin (5882252574524729 / 288230376151711744)) (d_of_int 49) \<noteq>
            dsub (Fin 1) (Fin 0)"
    by (simp add: op_defs fl_defs)
  have pc: "parse_arguments ?c uninit_cfg [] = (Inr ?cc, [])"
    by (simp add: parse_arguments_def uninit_cfg_def atof_small atoi_small n dle_def)
  have gc: "configure_grid ?cc [] = (Inl CastOutOfRange, [])"
    by (simp add: uninit_cfg_def configure_grid_def op_defs fl_defs)
  have "main True example_restore example_interpolate ?c =
          give_up CastOutOfRange [] [ParseArguments, ConfigureGrid]"
    by (rule main_grid_failure [OF pc gc])
  then have mc: "status (main True example_restore example_interpolate ?c) = Inl CastOutOfRange"
    by (simp add: give_up_def returns_zero_def)
  have ar: "5790342378047781 / 4503599627370496 \<noteq> (9 - 0) / real_of_int 7"
    "\<lfloor>(9 - 0) / ((9 - 0) / real_of_int 7)\<rfloor> = (7 :: int)"
    "5882252574524729 / 288230376151711744 * real_of_int 49 \<noteq> 1 - 0"
    by simp_all
  show ?thesis
    using pa ga pb gb mb pc gc mc ar by (intro conjI)
qed

text \<open>
  Claim C1, as amended. Let the bounds satisfy \<open>xmax > xmin\<close> and \<open>ymax > ymin\<close> and let
  \<open>ny > 0\<close>. Grid configuration sets \<open>\<Delta>y\<close> to the double quotient of the double difference
  \<open>ymax - ymin\<close> by \<open>ny\<close>. Let the double quotient of the double difference \<open>xmax - xmin\<close>
  by \<open>\<Delta>y\<close> be a number \<open>q\<close> (not an infinity, not NaN) whose integer part \<open>n = \<lfloor>q\<rfloor>\<close> is
  below \<open>2^31\<close>. If \<open>n \<le> 0\<close>, grid configuration fails, and a run that parsed this
  configuration ends with exit status 1 and no output row. Otherwise grid configuration
  sets \<open>nx = n\<close> and then \<open>\<Delta>x\<close> to the double quotient of \<open>xmax - xmin\<close> by \<open>nx\<close>.
\<close>

theorem C1_grid_configuration:
  assumes "dlt (xmin cfg) (xmax cfg)" and "dlt (ymin cfg) (ymax cfg)" and "0 < ny cfg"
    and "dy = ddiv (dsub (ymax cfg) (ymin cfg)) (d_of_int (ny cfg))"
    and "ddiv (dsub (xmax cfg) (xmin cfg)) dy = Fin q"
    and "n = \<lfloor>q\<rfloor>"
    and "n < 2 ^ 31"
  shows "(n \<le> 0 \<longrightarrow>
            fst (configure_grid cfg err) = Inl NxNotPositive \<and>
            (\<forall>argv. parse_arguments argv uninit_cfg [] = (Inr cfg, []) \<longrightarrow>
               status (main AXI restore interpolate argv) = Inr 1 \<and>
               output_rows (ferr (main AXI restore interpolate argv)) = [])) \<and>
         (0 < n \<longrightarrow>
            configure_grid cfg err =
              (Inr (cfg\<lparr>Deltay := dy, nx := n,
                         Deltax := ddiv (dsub (xmax cfg) (xmin cfg)) (d_of_int n)\<rparr>), err))"
proof -
  have q: "0 \<le> q"
    using grid_quotient_nonneg [OF assms(1,2,3)] assms(4,5) by simp
  have cast: "double_to_int (ddiv (dsub (xmax cfg) (xmin cfg)) dy) = Some n"
    using double_to_int_floor [OF q] assms(5,6,7) by simp
  show ?thesis
  proof (intro conjI impI allI)
    assume n: "n \<le> 0"
    have cg: "configure_grid cfg [] =
        (Inl NxNotPositive, fputs ''Error: Computed nx <= 0. Check the provided bounds.\<newline>'')"
      using cast n assms(4) by (simp add: configure_grid_def Let_def)
    show "fst (configure_grid cfg err) = Inl NxNotPositive"
      using cast n assms(4) by (simp add: configure_grid_def Let_def)
    fix argv
    assume p: "parse_arguments argv uninit_cfg [] = (Inr cfg, [])"
    have m: "main AXI restore interpolate argv =
        give_up NxNotPositive (fputs ''Error: Computed nx <= 0. Check the provided bounds.\<newline>'')
          [ParseArguments, ConfigureGrid]"
      by (rule main_grid_failure [OF p cg])
    show "status (main AXI restore interpolate argv) = Inr 1"
      by (simp add: m give_up_def returns_zero_def)
    show "output_rows (ferr (main AXI restore interpolate argv)) = []"
      by (simp add: m give_up_def output_rows_fputs)
  next
    assume n: "0 < n"
    show "configure_grid cfg err =
        (Inr (cfg\<lparr>Deltay := dy, nx := n,
                   Deltax := ddiv (dsub (xmax cfg) (xmin cfg)) (d_of_int n)\<rparr>), err)"
      using cast n assms(4) by (simp add: configure_grid_def Let_def)
  qed
qed

text \<open>
  Instances of C1: the worked example, the arguments \<^verbatim>\<open>dump 0 0 9 9 7\<close>, and the arguments
  \<^verbatim>\<open>dump 0 0 1 2 1\<close>, for which \<open>nx\<close> is 0.
\<close>

theorem C1_grid_configuration_witness:
  "configure_grid (example_cfg\<lparr>Deltax := Fin 0, Deltay := Fin 0, nx := 0\<rparr>) [] =
     (Inr example_cfg, []) \<and>
   configure_grid (uninit_cfg\<lparr>filename := ''dump'', xmax := Fin 9, ymax := Fin 9, ny := 7\<rparr>) [] =
     (Inr (uninit_cfg\<lparr>filename := ''dump'', xmax := Fin 9, ymax := Fin 9, ny := 7,
             Deltay := Fin (5790342378047781 / 4503599627370496), nx := 6,
             Deltax := Fin (3 / 2)\<rparr>), []) \<and>
   fst (configure_grid (example_cfg\<lparr>Deltax := Fin 0, Deltay := Fin 0, nx := 0, ny := 1\<rparr>) [])
     = Inl NxNotPositive \<and>
   status (main True example_restore example_interpolate
             [''getData'', ''dump'', ''0'', ''0'', ''1'', ''2'', ''1'']) = Inr 1 \<and>
   output_rows (ferr (main True example_restore example_interpolate
             [''getData'', ''dump'', ''0'', ''0'', ''1'', ''2'', ''1''])) = []"
proof -
  let ?a = "example_cfg\<lparr>Deltax := Fin 0, Deltay := Fin 0, nx := 0\<rparr>"
  let ?b = "example_cfg\<lparr>Deltax := Fin 0, Deltay := Fin 0, nx := 0, ny := 1\<rparr>"
  let ?c = "uninit_cfg\<lparr>filename := ''dump'', xmax := Fin 9, ymax := Fin 9, ny := 7\<rparr>"
  let ?argv = "[''getData'', ''dump'', ''0'', ''0'', ''1'', ''2'', ''1'']"
  have p: "parse_arguments ?argv uninit_cfg [] = (Inr ?b, [])"
    by (simp add: parse_arguments_def example_cfg_def uninit_cfg_def atof_small atoi_small
          dle_def)
  have a1: "dlt (xmin ?a) (xmax ?a)" "dlt (ymin ?a) (ymax ?a)" "0 < ny ?a"
    by (simp_all add: example_cfg_def dlt_def dle_def)
  have a2: "Fin (1 / 2) = ddiv (dsub (ymax ?a) (ymin ?a)) (d_of_int (ny ?a))"
    by (simp add: example_cfg_def op_defs fl_defs)
  have a3: "ddiv (dsub (xmax ?a) (xmin ?a)) (Fin (1 / 2)) = Fin 2"
    by (simp add: example_cfg_def op_defs fl_defs)
  have a4: "(2::int) = \<lfloor>2::real\<rfloor>" "(2::int) < 2 ^ 31" by simp_all
  have "configure_grid ?a [] =
          (Inr (?a\<lparr>Deltay := Fin (1 / 2), nx := 2,
                    Deltax := ddiv (dsub (xmax ?a) (xmin ?a)) (d_of_int 2)\<rparr>), [])"
    using C1_grid_configuration [OF a1 a2 a3 a4, of "[]"] by simp
  moreover have "ddiv (dsub (xmax ?a) (xmin ?a)) (d_of_int 2) = Fin (1 / 2)"
    by (simp add: example_cfg_def op_defs fl_defs)
  ultimately have a: "configure_grid ?a [] = (Inr example_cfg, [])"
    by (simp add: example_cfg_def)
  have b1: "dlt (xmin ?b) (xmax ?b)" "dlt (ymin ?b) (ymax ?b)" "0 < ny ?b"
    by (simp_all add: example_cfg_def dlt_def dle_def)
  have b2: "Fin 2 = ddiv (dsub (ymax ?b) (ymin ?b)) (d_of_int (ny ?b))"
    by (simp add: example_cfg_def op_defs fl_defs)
  have b3: "ddiv (dsub (xmax ?b) (xmin ?b)) (Fin 2) = Fin (1 / 2)"
    by (simp add: example_cfg_def op_defs fl_defs)
  have b4: "(0::int) = \<lfloor>1 / 2 :: real\<rfloor>" "(0::int) < 2 ^ 31" by simp_all
  have b: "fst (configure_grid ?b []) = Inl NxNotPositive \<and>
           (\<forall>argv. parse_arguments argv uninit_cfg [] = (Inr ?b, []) \<longrightarrow>
               status (main True example_restore example_interpolate argv) = Inr 1 \<and>
               output_rows (ferr (main True example_restore example_interpolate argv)) = [])"
    using C1_grid_configuration [OF b1 b2 b3 b4, of "[]" True example_restore example_interpolate]
    by simp
  then have r: "status (main True example_restore example_interpolate ?argv) = Inr 1 \<and>
      output_rows (ferr (main True example_restore example_interpolate ?argv)) = []"
    using p by blast
  have c1: "dlt (xmin ?c) (xmax ?c)" "dlt (ymin ?c) (ymax ?c)" "0 < ny ?c"
    by (simp_all add: uninit_cfg_def dlt_def dle_def)
  have c2: "Fin (5790342378047781 / 4503599627370496) =
            ddiv (dsub (ymax ?c) (ymin ?c)) (d_of_int (ny ?c))"
    by (simp add: uninit_cfg_def op_defs fl_defs)
  have c3: "ddiv (dsub (xmax ?c) (xmin ?c)) (Fin (5790342378047781 / 4503599627370496)) =
            Fin (7881299347898367 / 1125899906842624)"
    by (simp add: uninit_cfg_def op_defs fl_defs)
  have c4: "(6::int) = \<lfloor>7881299347898367 / 1125899906842624 :: real\<rfloor>" "(6::int) < 2 ^ 31"
    by simp_all
  have "configure_grid ?c [] =
          (Inr (?c\<lparr>Deltay := Fin (5790342378047781 / 4503599627370496), nx := 6,
                    Deltax := ddiv (dsub (xmax ?c) (xmin ?c)) (d_of_int 6)\<rparr>), [])"
    using C1_grid_configuration [OF c1 c2 c3 c4, of "[]"] by simp
  moreover have "ddiv (dsub (xmax ?c) (xmin ?c)) (d_of_int 6) = Fin (3 / 2)"
    by (simp add: uninit_cfg_def op_defs fl_defs)
  ultimately have c: "configure_grid ?c [] =
          (Inr (?c\<lparr>Deltay := Fin (5790342378047781 / 4503599627370496), nx := 6,
                    Deltax := Fin (3 / 2)\<rparr>), [])"
    by simp
  show ?thesis
    using a b r c by (intro conjI) simp_all
qed

subsection \<open>C2: the strain-rate kernel\<close>



subsection \<open>C3: the rows of the output\<close>

text \<open>
  Claim C3. A run that ends with exit status 0 has parsed its arguments and configured
  its grid, and its stream is the \<open>nx * ny\<close> rows of the grid, each ended by a newline, in
  the order \<open>i\<close> outer, \<open>j\<close> inner. Row \<open>i * ny + j\<close> holds \<open>x = \<Delta>x * (i + 0.5) + xmin\<close>,
  \<open>y = \<Delta>y * (j + 0.5) + ymin\<close>, both computed in double arithmetic, and then, for the
  registered fields \<open>D2c\<close>, \<open>vel\<close> in this order, the interpolation of the field at
  \<open>(x, y)\<close>, which is the double the sampler stored at \<open>[i][fieldCount * j + k]\<close>.
\<close>

theorem C3_output_rows:
  assumes "status (main AXI restore interpolate argv) = Inr 0"
  shows "\<exists>cfg0 cfg b0.
           parse_arguments argv uninit_cfg [] = (Inr cfg0, []) \<and>
           configure_grid cfg0 [] = (Inr cfg, []) \<and>
           allocate_field_buffer cfg (length (register_fields [])) = Inr b0 \<and>
           (let m = restore (filename cfg);
                st = compute_fields AXI m (\<lambda>s. []);
                value_at = (\<lambda>s x y. interpolate m (st s) x y);
                fl = register_fields [];
                r = main AXI restore interpolate argv;
                x = (\<lambda>i. dadd (dmul (Deltax cfg) (dadd (d_of_int (int i)) half)) (xmin cfg));
                y = (\<lambda>j. dadd (dmul (Deltay cfg) (dadd (d_of_int (int j)) half)) (ymin cfg))
            in fl = [D2c, vel] \<and>
               ferr r = grid_rows value_at fl cfg
                          (List.product [0..<nat (nx cfg)] [0..<nat (ny cfg)]) \<and>
               length (output_rows (ferr r)) = nat (nx cfg) * nat (ny cfg) \<and>
               (\<forall>i < nat (nx cfg). \<forall>j < nat (ny cfg).
                  output_rows (ferr r) ! (i * nat (ny cfg) + j) =
                    x i # y j # map (\<lambda>s. Fin (value_at s (x i) (y j))) fl) \<and>
               (\<exists>buf. sample_fields value_at fl cfg b0 (length fl) = Inr buf \<and>
                  (\<forall>i < nat (nx cfg). \<forall>j < nat (ny cfg). \<forall>k < length fl.
                     buf ! i ! (length fl * j + k) =
                       Some (value_at (fl ! k) (x i) (y j)))))"
proof (cases argv rule: main_cases)
  case (parse e err)
  then have "status (main AXI restore interpolate argv) \<noteq> Inr 0"
    by (simp add: main_parse_failure give_up_def)
  then show ?thesis using assms by simp
next
  case (grid cfg0 err0 e err)
  then have "status (main AXI restore interpolate argv) \<noteq> Inr 0"
    by (simp add: main_grid_failure give_up_def)
  then show ?thesis using assms by simp
next
  case (overflow cfg0 err0 cfg err)
  then have "status (main AXI restore interpolate argv) \<noteq> Inr 0"
    using main_overflow [of argv cfg0 err0 cfg err AXI restore interpolate] by simp
  then show ?thesis using assms by simp
next
  case (run cfg0 err0 cfg err)
  have e0: "err0 = []" using parse_arguments_stream [OF run(1)] .
  have e: "err = []" using configure_grid_stream [OF run(2)] e0 by simp
  define m where "m = restore (filename cfg)"
  define value_at where
    "value_at = (\<lambda>s x y. interpolate m (compute_fields AXI m (\<lambda>s. []) s) x y)"
  define x where "x = (\<lambda>i. dadd (dmul (Deltax cfg) (dadd (d_of_int (int i)) half)) (xmin cfg))"
  define y where "y = (\<lambda>j. dadd (dmul (Deltay cfg) (dadd (d_of_int (int j)) half)) (ymin cfg))"
  let ?fl = "[D2c, vel]"
  let ?N = "nat (nx cfg)" and ?n = "nat (ny cfg)"
  let ?r = "main AXI restore interpolate argv"
  let ?b0 = "matrix_new ?N (nat (ny cfg + 1)) (length ?fl)"
  have gx: "grid_x cfg = x" and gy: "grid_y cfg = y"
    by (simp_all add: grid_x_def grid_y_def coordinate_def x_def y_def fun_eq_iff)
  have int: "length ?fl * ?n \<le> 2 ^ 31" using run(3) by (simp add: fits_int_def)
  have alloc: "allocate_field_buffer cfg (length ?fl) = Inr ?b0"
    using run(3) by (simp add: allocate_field_buffer_def fits_int_def)
  have run': "?r = \<lparr>status = Inr 0,
      ferr = grid_rows value_at ?fl cfg (List.product [0..<?N] [0..<?n]), calls = all_calls\<rparr>"
    using main_success [OF run, of AXI restore interpolate]
    by (simp add: value_at_def m_def)
  have rows: "output_rows (ferr ?r) =
      map (\<lambda>(i, j). x i # y j # map Fin (sample_values value_at ?fl cfg i j))
        (List.product [0..<?N] [0..<?n])"
    by (simp add: run' output_rows_grid_rows gx gy)
  have len: "length (output_rows (ferr ?r)) = ?N * ?n"
    by (simp add: rows)
  have nth: "output_rows (ferr ?r) ! (i * ?n + j) =
       x i # y j # map (\<lambda>s. Fin (value_at s (x i) (y j))) ?fl"
    if i: "i < ?N" and j: "j < ?n" for i j
  proof -
    have lt: "i * ?n + j < ?N * ?n"
    proof -
      have "i * ?n + ?n \<le> ?N * ?n"
        using i mult_le_mono1 [of "Suc i" ?N ?n] by simp
      then show ?thesis using j by simp
    qed
    moreover have "(i * ?n + j) div ?n = i" "(i * ?n + j) mod ?n = j"
      using j by simp_all
    ultimately have "List.product [0..<?N] [0..<?n] ! (i * ?n + j) = (i, j)"
      using i j by (simp add: product_nth)
    then show ?thesis
      using lt by (simp add: rows sample_values_def gx gy)
  qed
  from sample_fields_result [OF int, of value_at]
  obtain buf where s: "sample_fields value_at ?fl cfg ?b0 (length ?fl) = Inr buf"
    and r: "\<forall>i < ?N. length (buf ! i) = nat (ny cfg + 1) * length ?fl \<and>
             (\<forall>idx < nat (ny cfg + 1) * length ?fl.
                buf ! i ! idx = sampled_row value_at ?fl cfg i ?n idx)"
    by blast
  have slot: "buf ! i ! (length ?fl * j + k) = Some (value_at (?fl ! k) (x i) (y j))"
    if i: "i < ?N" and j: "j < ?n" and k: "k < length ?fl" for i j k
  proof -
    have "nat (ny cfg + 1) = Suc ?n" using j by simp
    then have "length ?fl * j + k < nat (ny cfg + 1) * length ?fl"
      using slot_in_row [OF j k] by simp
    then have "buf ! i ! (length ?fl * j + k) =
               sampled_row value_at ?fl cfg i ?n (length ?fl * j + k)"
      using r i by blast
    then show ?thesis
      using sampled_row_slot [OF j k, of value_at cfg i]
      by (simp add: gx gy)
  qed
  have body: "?fl = [D2c, vel] \<and>
      ferr ?r = grid_rows value_at ?fl cfg (List.product [0..<?N] [0..<?n]) \<and>
      length (output_rows (ferr ?r)) = ?N * ?n \<and>
      (\<forall>i < ?N. \<forall>j < ?n.
         output_rows (ferr ?r) ! (i * ?n + j) =
           x i # y j # map (\<lambda>s. Fin (value_at s (x i) (y j))) ?fl) \<and>
      (\<exists>buf. sample_fields value_at ?fl cfg ?b0 (length ?fl) = Inr buf \<and>
         (\<forall>i < ?N. \<forall>j < ?n. \<forall>k < length ?fl.
            buf ! i ! (length ?fl * j + k) = Some (value_at (?fl ! k) (x i) (y j))))"
    using run' len nth s slot by (intro conjI) (simp, simp, simp, blast, blast)
  have "parse_arguments argv uninit_cfg [] = (Inr cfg0, []) \<and>
        configure_grid cfg0 [] = (Inr cfg, []) \<and>
        allocate_field_buffer cfg (length (register_fields [])) = Inr ?b0"
    using run(1,2) e0 e alloc by (simp add: register_fields_Nil)
  moreover have "let m = restore (filename cfg);
                st = compute_fields AXI m (\<lambda>s. []);
                value_at = (\<lambda>s x y. interpolate m (st s) x y);
                fl = register_fields [];
                r = main AXI restore interpolate argv;
                x = (\<lambda>i. dadd (dmul (Deltax cfg) (dadd (d_of_int (int i)) half)) (xmin cfg));
                y = (\<lambda>j. dadd (dmul (Deltay cfg) (dadd (d_of_int (int j)) half)) (ymin cfg))
            in fl = [D2c, vel] \<and>
               ferr r = grid_rows value_at fl cfg
                          (List.product [0..<nat (nx cfg)] [0..<nat (ny cfg)]) \<and>
               length (output_rows (ferr r)) = nat (nx cfg) * nat (ny cfg) \<and>
               (\<forall>i < nat (nx cfg). \<forall>j < nat (ny cfg).
                  output_rows (ferr r) ! (i * nat (ny cfg) + j) =
                    x i # y j # map (\<lambda>s. Fin (value_at s (x i) (y j))) fl) \<and>
               (\<exists>buf. sample_fields value_at fl cfg ?b0 (length fl) = Inr buf \<and>
                  (\<forall>i < nat (nx cfg). \<forall>j < nat (ny cfg). \<forall>k < length fl.
                     buf ! i ! (length fl * j + k) =
                       Some (value_at (fl ! k) (x i) (y j))))"
    using body unfolding Let_def register_fields_Nil value_at_def m_def x_def y_def .
  ultimately show ?thesis by blast
qed

text \<open>An instance of C3 on the worked example: the run has eight rows, and this is row \<open>(1, 1)\<close>.\<close>

theorem C3_output_rows_witness:
  "status (main True example_restore example_interpolate example_argv) = Inr 0 \<and>
   length (output_rows (ferr (main True example_restore example_interpolate example_argv))) = 8 \<and>
   output_rows (ferr (main True example_restore example_interpolate example_argv)) ! 5 =
     [Fin (3 / 4), Fin (3 / 4), Fin 0, Fin 0]"
proof -
  let ?r = "main True example_restore example_interpolate example_argv"
  let ?v = "\<lambda>s x y. example_interpolate (example_restore (filename example_cfg))
              (compute_fields True (example_restore (filename example_cfg)) (\<lambda>s. []) s) x y"
  let ?x = "\<lambda>i. dadd (dmul (Deltax example_cfg) (dadd (d_of_int (int i)) half)) (xmin example_cfg)"
  let ?y = "\<lambda>j. dadd (dmul (Deltay example_cfg) (dadd (d_of_int (int j)) half)) (ymin example_cfg)"
  have st: "status ?r = Inr 0"
    by (simp add: main_success [OF example_parse example_grid example_fits])
  from C3_output_rows [OF st]
  obtain cfg0 cfg b0 where p: "parse_arguments example_argv uninit_cfg [] = (Inr cfg0, [])"
    and g: "configure_grid cfg0 [] = (Inr cfg, [])"
    and c: "let m = example_restore (filename cfg);
                st = compute_fields True m (\<lambda>s. []);
                value_at = (\<lambda>s x y. example_interpolate m (st s) x y);
                fl = register_fields [];
                r = main True example_restore example_interpolate example_argv;
                x = (\<lambda>i. dadd (dmul (Deltax cfg) (dadd (d_of_int (int i)) half)) (xmin cfg));
                y = (\<lambda>j. dadd (dmul (Deltay cfg) (dadd (d_of_int (int j)) half)) (ymin cfg))
            in fl = [D2c, vel] \<and>
               ferr r = grid_rows value_at fl cfg
                          (List.product [0..<nat (nx cfg)] [0..<nat (ny cfg)]) \<and>
               length (output_rows (ferr r)) = nat (nx cfg) * nat (ny cfg) \<and>
               (\<forall>i < nat (nx cfg). \<forall>j < nat (ny cfg).
                  output_rows (ferr r) ! (i * nat (ny cfg) + j) =
                    x i # y j # map (\<lambda>s. Fin (value_at s (x i) (y j))) fl) \<and>
               (\<exists>buf. sample_fields value_at fl cfg b0 (length fl) = Inr buf \<and>
                  (\<forall>i < nat (nx cfg). \<forall>j < nat (ny cfg). \<forall>k < length fl.
                     buf ! i ! (length fl * j + k) =
                       Some (value_at (fl ! k) (x i) (y j))))"
    by blast
  have "cfg0 = example_cfg\<lparr>Deltax := Fin 0, Deltay := Fin 0, nx := 0\<rparr>"
    using p example_parse by simp
  then have cfg: "cfg = example_cfg" using g example_grid by simp
  have n: "nat (nx example_cfg) = 2" "nat (ny example_cfg) = 4"
    by (simp_all add: example_cfg_def)
  have i1: "(1::nat) < nat (nx example_cfg)" and j1: "(1::nat) < nat (ny example_cfg)"
    by (simp_all add: n)
  from c have len: "length (output_rows (ferr ?r)) = nat (nx example_cfg) * nat (ny example_cfg)"
    unfolding Let_def cfg by blast
  from c have "\<forall>i < nat (nx example_cfg). \<forall>j < nat (ny example_cfg).
               output_rows (ferr ?r) ! (i * nat (ny example_cfg) + j) =
                 ?x i # ?y j # map (\<lambda>s. Fin (?v s (?x i) (?y j))) (register_fields [])"
    unfolding Let_def cfg by blast
  from this [rule_format, OF i1 j1]
  have "output_rows (ferr ?r) ! (1 * nat (ny example_cfg) + 1) =
          ?x 1 # ?y 1 # map (\<lambda>s. Fin (?v s (?x 1) (?y 1))) (register_fields [])" .
  moreover have "?x 1 = Fin (3 / 4)" "?y 1 = Fin (3 / 4)"
    using example_coordinates by (simp_all add: example_cfg_def coordinate_def)
  ultimately have "output_rows (ferr ?r) ! 5 = [Fin (3 / 4), Fin (3 / 4), Fin 0, Fin 0]"
    by (simp add: n register_fields_Nil example_interpolate_def
          example_restore_def compute_fields_D2c compute_fields_vel vel_cell_def D2c_cell_def
          D22_def sq_def example_cell_def)
  then show ?thesis using st len n by simp
qed

subsection \<open>C4: argument validation\<close>

text \<open>
  Claim C4 says that argument validation succeeds only when \<open>xmax > xmin\<close> and
  \<open>ymax > ymin\<close>. The test of the code is \<^verbatim>\<open>xmax <= xmin || ymax <= ymin\<close>, which is false
  when a bound is NaN. For the arguments \<^verbatim>\<open>dump 0 0 nan 2 4\<close> the function \<^verbatim>\<open>atof\<close> reads
  \<open>xmax\<close> as NaN, \<open>xmax > xmin\<close> does not hold, and \<^verbatim>\<open>parse_arguments\<close> still succeeds and
  writes no message; \<^verbatim>\<open>main\<close> goes on to \<^verbatim>\<open>configure_grid\<close>, where the cast of NaN to
  \<^verbatim>\<open>int\<close> is undefined.
\<close>

theorem C4_nan_bound_accepted:
  "atof ''nan'' = NaN \<and>
   \<not> dlt (atof ''0'') (atof ''nan'') \<and>
   parse_arguments [''getData'', ''dump'', ''0'', ''0'', ''nan'', ''2'', ''4''] uninit_cfg [] =
     (Inr (uninit_cfg\<lparr>filename := ''dump'', xmax := NaN, ymax := Fin 2, ny := 4\<rparr>), []) \<and>
   main AXI restore interpolate [''getData'', ''dump'', ''0'', ''0'', ''nan'', ''2'', ''4''] =
     \<lparr>status = Inl CastOutOfRange, ferr = [], calls = [ParseArguments, ConfigureGrid]\<rparr>"
proof -
  let ?argv = "[''getData'', ''dump'', ''0'', ''0'', ''nan'', ''2'', ''4'']"
  let ?cfg = "uninit_cfg\<lparr>filename := ''dump'', xmax := NaN, ymax := Fin 2, ny := 4\<rparr>"
  have n: "atof ''nan'' = NaN"
    by (simp add: parse_defs)
  have p: "parse_arguments ?argv uninit_cfg [] = (Inr ?cfg, [])"
    by (simp add: parse_arguments_def uninit_cfg_def atof_small atoi_small n dle_def)
  have c: "configure_grid ?cfg [] = (Inl CastOutOfRange, [])"
    by (simp add: configure_grid_def uninit_cfg_def op_defs fl_defs)
  have "main AXI restore interpolate ?argv =
          give_up CastOutOfRange [] [ParseArguments, ConfigureGrid]"
    by (rule main_grid_failure [OF p c])
  then show ?thesis
    using n p by (simp add: give_up_def returns_zero_def atof_small dlt_def dle_def)
qed

subsection \<open>C5: the geometry policy and the velocity column\<close>

text \<open>
  Claim C5. Two runs on the same arguments and the same snapshot, one axisymmetric and
  one planar, end with the same status and the same number of rows; the velocity column
  (the fourth number of a row) is the same in both, and so is every row once the
  strain-rate column (the third number) is left out.
\<close>

theorem C5_geometry_policy:
  "status (main True restore interpolate argv) = status (main False restore interpolate argv) \<and>
   length (output_rows (ferr (main True restore interpolate argv))) =
     length (output_rows (ferr (main False restore interpolate argv))) \<and>
   map (\<lambda>r. r ! 3) (output_rows (ferr (main True restore interpolate argv))) =
     map (\<lambda>r. r ! 3) (output_rows (ferr (main False restore interpolate argv))) \<and>
   map (\<lambda>r. take 2 r @ drop 3 r) (output_rows (ferr (main True restore interpolate argv))) =
     map (\<lambda>r. take 2 r @ drop 3 r) (output_rows (ferr (main False restore interpolate argv)))"
proof (cases argv rule: main_cases)
  case (parse e err)
  show ?thesis
    by (simp add: main_parse_failure [OF parse])
next
  case (grid cfg0 err0 e err)
  show ?thesis
    by (simp add: main_grid_failure [OF grid])
next
  case (overflow cfg0 err0 cfg err)
  show ?thesis
    by (simp add: main_overflow [OF overflow])
next
  case (run cfg0 err0 cfg err)
  show ?thesis
    by (simp add: main_success [OF run] output_rows_grid_rows sample_values_def
          compute_fields_vel case_prod_unfold)
qed

subsection \<open>C6: the velocity kernel\<close>



subsection \<open>C7: the guard of the axis\<close>

text \<open>
  Claim C7. In axisymmetric mode \<open>D22\<close> is \<open>u_y / y\<close> when \<open>y > 1e-10\<close>, and then \<open>y\<close> is not
  zero; at or below that bound \<open>D22\<close> is 0, the stored value does not depend on \<open>u_y\<close> at the
  cell (the quotient is not taken), and it is the planar value. In planar mode the stored
  value depends neither on \<open>y\<close> nor on \<open>u_y\<close> at the cell: there is no \<open>D22\<close> term. The
  bound is the double \<^verbatim>\<open>1e-10\<close>, which is \<open>7737125245533627 / 2 ^ 86\<close>.
\<close>

theorem C7_axis_guard:
  "atof ''1e-10'' = Fin (7737125245533627 / 2 ^ 86) \<and>
   (y_val c > 7737125245533627 / 2 ^ 86 \<longrightarrow> D22 c = u_y c 0 0 / y_val c \<and> y_val c \<noteq> 0) \<and>
   (y_val c \<le> 7737125245533627 / 2 ^ 86 \<longrightarrow>
      D22 c = 0 \<and>
      D2c_cell True c = D2c_cell True (c\<lparr>u_y := (u_y c)(0 := (u_y c 0)(0 := w))\<rparr>) \<and>
      D2c_cell True c = D2c_cell False c) \<and>
   D2c_cell False c = D2c_cell False (c\<lparr>y_val := y'\<rparr>) \<and>
   D2c_cell False c = D2c_cell False (c\<lparr>u_y := (u_y c)(0 := (u_y c 0)(0 := w))\<rparr>)"
proof -
  have "atof ''1e-10'' = Fin (7737125245533627 / 2 ^ 86)"
    by (simp add: parse_defs fl_defs)
  moreover have
    "(y_val c > 7737125245533627 / 2 ^ 86 \<longrightarrow> D22 c = u_y c 0 0 / y_val c \<and> y_val c \<noteq> 0) \<and>
     (y_val c \<le> 7737125245533627 / 2 ^ 86 \<longrightarrow>
        D22 c = 0 \<and>
        D2c_cell True c = D2c_cell True (c\<lparr>u_y := (u_y c)(0 := (u_y c 0)(0 := w))\<rparr>) \<and>
        D2c_cell True c = D2c_cell False c) \<and>
     D2c_cell False c = D2c_cell False (c\<lparr>y_val := y'\<rparr>) \<and>
     D2c_cell False c = D2c_cell False (c\<lparr>u_y := (u_y c)(0 := (u_y c 0)(0 := w))\<rparr>)"
    by (auto simp: D22_def D2c_cell_def Let_def sq_def)
  ultimately show ?thesis by blast
qed

text \<open>
  Instances of C7: a cell away from the axis, a cell on the axis, a cell at the bound,
  and a cell between \<open>1 / 10 ^ 10\<close> and the bound.
\<close>

theorem C7_axis_guard_witness:
  "D22 example_cell2 = 2 \<and> D22 (example_cell2\<lparr>y_val := 0\<rparr>) = 0 \<and>
   D22 (example_cell2\<lparr>y_val := 7737125245533627 / 2 ^ 86\<rparr>) = 0 \<and>
   D22 (example_cell2\<lparr>y_val := 7737125245533628 / 2 ^ 86\<rparr>) = 4 / (7737125245533628 / 2 ^ 86) \<and>
   D2c_cell True (example_cell2\<lparr>y_val := 0\<rparr>) = D2c_cell False (example_cell2\<lparr>y_val := 0\<rparr>)"
  using C7_axis_guard [of example_cell2] C7_axis_guard [of "example_cell2\<lparr>y_val := 0\<rparr>"]
    C7_axis_guard [of "example_cell2\<lparr>y_val := 7737125245533627 / 2 ^ 86\<rparr>"]
    C7_axis_guard [of "example_cell2\<lparr>y_val := 7737125245533628 / 2 ^ 86\<rparr>"]
  by (simp add: example_cell2_def)

subsection \<open>C8: bounds that are not numeric\<close>




subsection \<open>C9: the accesses to the buffer\<close>

text \<open>
  The statement of C9 fails where an \<^verbatim>\<open>int\<close> expression of the buffer overflows.
  For the arguments \<^verbatim>\<open>dump 0 0 1 2147483647 2147483647\<close> the grid has \<open>nx = 1\<close> and
  \<open>ny = 2^31 - 1\<close>, and the number of slots \<^verbatim>\<open>cfg->ny + 1\<close> overflows: the buffer is not
  one of \<open>ny + 1\<close> slots a row. For \<^verbatim>\<open>dump 0 0 1 1073741825 1073741825\<close> the grid has
  \<open>nx = 1\<close> and \<open>ny = 2^30 + 1\<close>, the buffer is allocated, and the sampler reaches
  \<open>j = 2^30\<close>, where the index \<^verbatim>\<open>registered_fields*j + k\<close> overflows.
\<close>

theorem C9_counterexample:
  "parse_arguments [''getData'', ''dump'', ''0'', ''0'', ''1'', ''2147483647'', ''2147483647'']
     uninit_cfg [] =
     (Inr (uninit_cfg\<lparr>filename := ''dump'', xmax := Fin 1, ymax := Fin 2147483647,
             ny := 2147483647\<rparr>), []) \<and>
   configure_grid (uninit_cfg\<lparr>filename := ''dump'', xmax := Fin 1, ymax := Fin 2147483647,
             ny := 2147483647\<rparr>) [] =
     (Inr (uninit_cfg\<lparr>filename := ''dump'', xmax := Fin 1, ymax := Fin 2147483647,
             ny := 2147483647, Deltay := Fin 1, nx := 1, Deltax := Fin 1\<rparr>), []) \<and>
   allocate_field_buffer
     (uninit_cfg\<lparr>filename := ''dump'', xmax := Fin 1, ymax := Fin 2147483647,
             ny := 2147483647, Deltay := Fin 1, nx := 1, Deltax := Fin 1\<rparr>) 2 = Inl IntOverflow \<and>
   status (main True example_restore example_interpolate
     [''getData'', ''dump'', ''0'', ''0'', ''1'', ''2147483647'', ''2147483647'']) =
     Inl IntOverflow \<and>
   parse_arguments [''getData'', ''dump'', ''0'', ''0'', ''1'', ''1073741825'', ''1073741825'']
     uninit_cfg [] =
     (Inr (uninit_cfg\<lparr>filename := ''dump'', xmax := Fin 1, ymax := Fin 1073741825,
             ny := 1073741825\<rparr>), []) \<and>
   configure_grid (uninit_cfg\<lparr>filename := ''dump'', xmax := Fin 1, ymax := Fin 1073741825,
             ny := 1073741825\<rparr>) [] =
     (Inr (uninit_cfg\<lparr>filename := ''dump'', xmax := Fin 1, ymax := Fin 1073741825,
             ny := 1073741825, Deltay := Fin 1, nx := 1, Deltax := Fin 1\<rparr>), []) \<and>
   allocate_field_buffer
     (uninit_cfg\<lparr>filename := ''dump'', xmax := Fin 1, ymax := Fin 1073741825,
             ny := 1073741825, Deltay := Fin 1, nx := 1, Deltax := Fin 1\<rparr>) 2 =
     Inr (matrix_new 1 1073741826 2) \<and>
   sample_fields (\<lambda>s x y. 0) [D2c, vel]
     (uninit_cfg\<lparr>filename := ''dump'', xmax := Fin 1, ymax := Fin 1073741825,
             ny := 1073741825, Deltay := Fin 1, nx := 1, Deltax := Fin 1\<rparr>)
     (matrix_new 1 1073741826 2) 2 = Inl IntOverflow \<and>
   status (main True example_restore example_interpolate
     [''getData'', ''dump'', ''0'', ''0'', ''1'', ''1073741825'', ''1073741825'']) =
     Inl IntOverflow"
proof -
  let ?argva = "[''getData'', ''dump'', ''0'', ''0'', ''1'', ''2147483647'', ''2147483647'']"
  let ?pa = "uninit_cfg\<lparr>filename := ''dump'', xmax := Fin 1, ymax := Fin 2147483647,
             ny := 2147483647\<rparr>"
  let ?qa = "uninit_cfg\<lparr>filename := ''dump'', xmax := Fin 1, ymax := Fin 2147483647,
             ny := 2147483647, Deltay := Fin 1, nx := 1, Deltax := Fin 1\<rparr>"
  let ?argvb = "[''getData'', ''dump'', ''0'', ''0'', ''1'', ''1073741825'', ''1073741825'']"
  let ?pb = "uninit_cfg\<lparr>filename := ''dump'', xmax := Fin 1, ymax := Fin 1073741825,
             ny := 1073741825\<rparr>"
  let ?qb = "uninit_cfg\<lparr>filename := ''dump'', xmax := Fin 1, ymax := Fin 1073741825,
             ny := 1073741825, Deltay := Fin 1, nx := 1, Deltax := Fin 1\<rparr>"
  have n: "atof ''2147483647'' = Fin 2147483647" "atoi ''2147483647'' = 2147483647"
    "atof ''1073741825'' = Fin 1073741825" "atoi ''1073741825'' = 1073741825"
    by (simp_all add: parse_defs fl_defs)
  have pa: "parse_arguments ?argva uninit_cfg [] = (Inr ?pa, [])"
    by (simp add: parse_arguments_def uninit_cfg_def atof_small n dle_def)
  have ga: "configure_grid ?pa [] = (Inr ?qa, [])"
    by (simp add: configure_grid_def uninit_cfg_def op_defs fl_defs)
  have fa: "\<not> fits_int ?qa 2"
    by (simp add: fits_int_def uninit_cfg_def)
  have aa: "allocate_field_buffer ?qa 2 = Inl IntOverflow"
    by (simp add: allocate_field_buffer_def uninit_cfg_def)
  have ma: "status (main True example_restore example_interpolate ?argva) = Inl IntOverflow"
    using main_overflow [OF pa ga fa] by simp
  have pb: "parse_arguments ?argvb uninit_cfg [] = (Inr ?pb, [])"
    by (simp add: parse_arguments_def uninit_cfg_def atof_small n dle_def)
  have gb: "configure_grid ?pb [] = (Inr ?qb, [])"
    by (simp add: configure_grid_def uninit_cfg_def op_defs fl_defs)
  have fb: "\<not> fits_int ?qb 2"
    by (simp add: fits_int_def uninit_cfg_def)
  have ab: "allocate_field_buffer ?qb 2 = Inr (matrix_new 1 1073741826 2)"
    by (simp add: allocate_field_buffer_def uninit_cfg_def)
  have nxb: "0 < nx ?qb" and nyb: "2 ^ 31 < length [D2c, vel] * nat (ny ?qb)"
    by (simp_all add: uninit_cfg_def)
  have e: "nat (nx ?qb) = 1" "nat (ny ?qb + 1) = 1073741826" "length [D2c, vel] = 2"
    by (simp_all add: uninit_cfg_def)
  have sb: "sample_fields (\<lambda>s x y. 0) [D2c, vel] ?qb (matrix_new 1 1073741826 2) 2 =
        Inl IntOverflow"
    using sample_fields_overflow [OF nxb nyb, of "\<lambda>s x y. 0", unfolded e] .
  have mb: "status (main True example_restore example_interpolate ?argvb) = Inl IntOverflow"
    using main_overflow [OF pb gb fb] by simp
  show ?thesis
    using pa ga aa ma pb gb ab sb mb by (intro conjI)
qed

text \<open>
  Claim C9, as amended. Let \<open>ny + 1\<close> and \<open>fieldCount * ny\<close> be within the range of
  \<^verbatim>\<open>int\<close>: \<open>ny + 1 < 2^31\<close> and \<open>fieldCount * ny \<le> 2^31\<close>. The buffer has \<open>nx\<close> rows of
  \<open>(ny + 1) * fieldCount\<close> doubles. Every position \<open>fieldCount * j + k\<close> with \<open>j < ny\<close> and
  \<open>k < fieldCount\<close> lies inside a row. The sampler ends without an access outside the
  buffer; afterwards the doubles of a row that were written are exactly those positions,
  and the doubles of the last slot, from \<open>fieldCount * ny\<close> on, were never written. The
  writer ends without an access outside the buffer and without reading a double that
  was never written, and what it writes does not depend on the last slot.
\<close>

theorem C9_buffer_bounds:
  assumes "ny cfg + 1 < 2 ^ 31" and "length fl * nat (ny cfg) \<le> 2 ^ 31"
  shows "\<exists>b0.
   allocate_field_buffer cfg (length fl) = Inr b0 \<and>
   b0 = replicate (nat (nx cfg)) (replicate (nat (ny cfg + 1) * length fl) None) \<and>
   (\<forall>j < nat (ny cfg). \<forall>k < length fl. length fl * j + k < nat (ny cfg + 1) * length fl) \<and>
   (\<exists>buf. sample_fields interpolate fl cfg b0 (length fl) = Inr buf \<and>
      length buf = nat (nx cfg) \<and>
      (\<forall>i < nat (nx cfg).
         length (buf ! i) = nat (ny cfg + 1) * length fl \<and>
         (\<forall>idx < nat (ny cfg + 1) * length fl.
            (buf ! i ! idx \<noteq> None) =
              (\<exists>j < nat (ny cfg). \<exists>k < length fl. idx = length fl * j + k)) \<and>
         (\<forall>idx < nat (ny cfg + 1) * length fl.
            length fl * nat (ny cfg) \<le> idx \<longrightarrow> buf ! i ! idx = None)) \<and>
      (\<exists>rows. write_fields fl cfg buf (length fl) fp = Inr (fp @ rows) \<and>
         (\<forall>buf'. length buf' = length buf \<and>
            (\<forall>i < nat (nx cfg). length (buf' ! i) = length (buf ! i) \<and>
               (\<forall>idx < length fl * nat (ny cfg). buf' ! i ! idx = buf ! i ! idx)) \<longrightarrow>
            write_fields fl cfg buf' (length fl) fp = Inr (fp @ rows))))"
proof -
  let ?F = "length fl" and ?N = "nat (nx cfg)" and ?n = "nat (ny cfg)"
  let ?L = "nat (ny cfg + 1) * length fl"
  let ?b0 = "matrix_new ?N (nat (ny cfg + 1)) ?F"
  have alloc: "allocate_field_buffer cfg ?F = Inr ?b0"
    using assms(1) by (simp add: allocate_field_buffer_def)
  have shape: "?b0 = replicate ?N (replicate ?L None)"
    by (simp add: matrix_new_def)
  have inside: "\<forall>j < ?n. \<forall>k < ?F. ?F * j + k < ?L"
  proof (intro allI impI)
    fix j k assume j: "j < ?n" and k: "k < ?F"
    then have "nat (ny cfg + 1) = Suc ?n" by simp
    then show "?F * j + k < ?L"
      using slot_in_row [OF j k] by simp
  qed
  from sample_fields_result [OF assms(2), of interpolate]
  obtain buf where s: "sample_fields interpolate fl cfg ?b0 ?F = Inr buf"
    and l: "length buf = ?N"
    and r: "\<forall>i < ?N. length (buf ! i) = ?L \<and>
             (\<forall>idx < ?L. buf ! i ! idx = sampled_row interpolate fl cfg i ?n idx)"
    by blast
  have le: "?n * ?F \<le> ?L" by (intro mult_le_mono1) simp
  have written: "\<forall>i < ?N. length (buf ! i) = ?L \<and>
         (\<forall>idx < ?L. (buf ! i ! idx \<noteq> None) = (\<exists>j < ?n. \<exists>k < ?F. idx = ?F * j + k)) \<and>
         (\<forall>idx < ?L. ?F * ?n \<le> idx \<longrightarrow> buf ! i ! idx = None)"
  proof (intro allI impI conjI)
    fix i assume "i < ?N"
    then show "length (buf ! i) = ?L" using r by simp
  next
    fix i idx assume "i < ?N" and "idx < ?L"
    then show "(buf ! i ! idx \<noteq> None) = (\<exists>j < ?n. \<exists>k < ?F. idx = ?F * j + k)"
      using r sampled_row_written [of interpolate fl cfg i ?n idx] by simp
  next
    fix i idx assume "i < ?N" and "idx < ?L" and "?F * ?n \<le> idx"
    then show "buf ! i ! idx = None"
      using r by (simp add: sampled_row_def)
  qed
  have rows_ok: "write_fields fl cfg b ?F fp =
        Inr (fp @ grid_rows interpolate fl cfg (List.product [0..<?N] [0..<?n]))"
    if lb: "length b = length buf"
      and rb: "\<forall>i < ?N. length (b ! i) = length (buf ! i) \<and>
               (\<forall>idx < ?F * ?n. b ! i ! idx = buf ! i ! idx)" for b
  proof (rule write_fields_result)
    show "length b = ?N" using lb l by simp
    show "?F * ?n \<le> 2 ^ 31" by (rule assms(2))
    show "\<forall>i < ?N. ?n * ?F \<le> length (b ! i) \<and>
             (\<forall>idx < ?n * ?F. b ! i ! idx = sampled_row interpolate fl cfg i ?n idx)"
    proof (intro allI impI conjI)
      fix i assume "i < ?N"
      then show "?n * ?F \<le> length (b ! i)" using rb r le by simp
    next
      fix i idx assume i: "i < ?N" and idx: "idx < ?n * ?F"
      then have "idx < ?L" using le by linarith
      then have "buf ! i ! idx = sampled_row interpolate fl cfg i ?n idx" using r i by blast
      moreover have "b ! i ! idx = buf ! i ! idx" using rb i idx by (simp add: mult.commute)
      ultimately show "b ! i ! idx = sampled_row interpolate fl cfg i ?n idx" by simp
    qed
  qed
  have w: "write_fields fl cfg buf ?F fp =
        Inr (fp @ grid_rows interpolate fl cfg (List.product [0..<?N] [0..<?n]))"
    by (rule rows_ok) simp_all
  have "\<exists>buf. sample_fields interpolate fl cfg ?b0 ?F = Inr buf \<and>
      length buf = ?N \<and>
      (\<forall>i < ?N.
         length (buf ! i) = ?L \<and>
         (\<forall>idx < ?L. (buf ! i ! idx \<noteq> None) = (\<exists>j < ?n. \<exists>k < ?F. idx = ?F * j + k)) \<and>
         (\<forall>idx < ?L. ?F * ?n \<le> idx \<longrightarrow> buf ! i ! idx = None)) \<and>
      (\<exists>rows. write_fields fl cfg buf ?F fp = Inr (fp @ rows) \<and>
         (\<forall>buf'. length buf' = length buf \<and>
            (\<forall>i < ?N. length (buf' ! i) = length (buf ! i) \<and>
               (\<forall>idx < ?F * ?n. buf' ! i ! idx = buf ! i ! idx)) \<longrightarrow>
            write_fields fl cfg buf' ?F fp = Inr (fp @ rows)))"
    using s l written w rows_ok by blast
  then show ?thesis
    using alloc shape inside by blast
qed

text \<open>An instance of C9 on the worked example.\<close>

theorem C9_buffer_bounds_witness:
  "allocate_field_buffer example_cfg 2 = Inr (replicate 2 (replicate 10 None)) \<and>
   (\<exists>buf. sample_fields (\<lambda>s x y. 0) [D2c, vel] example_cfg
             (replicate 2 (replicate 10 None)) 2 = Inr buf \<and>
      buf ! 1 ! 7 \<noteq> None \<and> buf ! 1 ! 8 = None \<and> buf ! 1 ! 9 = None)"
proof -
  let ?fl = "[D2c, vel]"
  have n: "nat (nx example_cfg) = 2" "nat (ny example_cfg) = 4" "nat (ny example_cfg + 1) = 5"
    by (simp_all add: example_cfg_def)
  have h: "ny example_cfg + 1 < 2 ^ 31" "length ?fl * nat (ny example_cfg) \<le> 2 ^ 31"
    by (simp_all add: example_cfg_def)
  from C9_buffer_bounds [OF h, of "\<lambda>s x y. 0" "[]"]
  obtain b0 buf where a: "allocate_field_buffer example_cfg (length ?fl) = Inr b0"
    and b: "b0 = replicate (nat (nx example_cfg))
                   (replicate (nat (ny example_cfg + 1) * length ?fl) None)"
    and s: "sample_fields (\<lambda>s x y. 0) ?fl example_cfg b0 (length ?fl) = Inr buf"
    and w: "\<forall>i < nat (nx example_cfg).
         length (buf ! i) = nat (ny example_cfg + 1) * length ?fl \<and>
         (\<forall>idx < nat (ny example_cfg + 1) * length ?fl.
            (buf ! i ! idx \<noteq> None) =
              (\<exists>j < nat (ny example_cfg). \<exists>k < length ?fl. idx = length ?fl * j + k)) \<and>
         (\<forall>idx < nat (ny example_cfg + 1) * length ?fl.
            length ?fl * nat (ny example_cfg) \<le> idx \<longrightarrow> buf ! i ! idx = None)"
    by blast
  have len: "length ?fl = 2" by simp
  note w' = w [unfolded n len]
  have "(1::nat) < 2" by simp
  with w' have w1:
    "(\<forall>idx < 5 * 2. (buf ! 1 ! idx \<noteq> None) = (\<exists>j < 4. \<exists>k < 2. idx = 2 * j + k)) \<and>
     (\<forall>idx < 5 * 2. 2 * 4 \<le> idx \<longrightarrow> buf ! 1 ! idx = None)"
    by blast
  have i7: "(7::nat) < 5 * 2" and i8: "(8::nat) < 5 * 2" and i9: "(9::nat) < 5 * 2"
    and g8: "2 * 4 \<le> (8::nat)" and g9: "2 * 4 \<le> (9::nat)"
    by simp_all
  have "(3::nat) < 4 \<and> (1::nat) < 2 \<and> (7::nat) = 2 * 3 + 1" by simp
  then have "\<exists>j < 4. \<exists>k < 2. (7::nat) = 2 * j + k" by blast
  then have s7: "buf ! 1 ! 7 \<noteq> None" using w1 i7 by blast
  have s8: "buf ! 1 ! 8 = None" using w1 i8 g8 by blast
  have s9: "buf ! 1 ! 9 = None" using w1 i9 g9 by blast
  have b': "b0 = replicate 2 (replicate 10 None)"
    using b [unfolded n len] by simp
  show ?thesis
    using a [unfolded len b'] s [unfolded len b'] s7 s8 s9 by blast
qed

subsection \<open>C10: the order of the steps\<close>

text \<open>
  Claim C10 says that the snapshot is restored before the fields are registered. The
  calls of a complete run, here the run of the worked example, are in this order:
  \<^verbatim>\<open>register_fields\<close> comes before \<^verbatim>\<open>restore\<close>; the other steps are in the order of
  the claim.
\<close>

theorem C10_call_order:
  "status (main True example_restore example_interpolate example_argv) = Inr 0 \<and>
   calls (main True example_restore example_interpolate example_argv) =
     [ParseArguments, ConfigureGrid, RegisterFields, Restore, ComputeFields,
      AllocateFieldBuffer, SampleFields, WriteFields, CleanupOutput]"
  by (simp add: main_success [OF example_parse example_grid example_fits] all_calls_def)

end
